theory Spec2Isabelle
  imports Main "HOL-Library.Sublist"
begin

section \<open>Geometric verification of matches through COLMAP: tools/kapture_run_colmap_gv.py\<close>

text \<open>
  The script is an orchestrator. It checks a loaded dataset, removes the rig notation from
  its trajectories, and then runs four steps, each of which can be skipped by name:
  \<^verbatim>\<open>delete_existing\<close>, \<^verbatim>\<open>matches_importer\<close>, \<^verbatim>\<open>import\<close> and \<^verbatim>\<open>delete_db\<close>.
  The model below follows \<^verbatim>\<open>run_colmap_gv_from_loaded_data\<close> statement by statement. The
  file system, the open database connections and the sequence of calls made to the outside
  are an explicit state that every statement takes and returns; an exception is an outcome
  that stops the statements after it.
\<close>

subsection \<open>The dataset held in memory\<close>

text \<open>
  A \<^verbatim>\<open>kapture.Kapture\<close> object holds optional collections (an absent one is
  \<^verbatim>\<open>None\<close>). The dictionaries are association lists, the Python sets are sets.
  \<^verbatim>\<open>kapture.Matches\<close> is a set of pairs of image names. Poses are left abstract: the
  type \<open>'p\<close>.
\<close>

type_synonym image_pair = "string \<times> string"
type_synonym 'p trajectories = "(nat \<times> string \<times> 'p) list"
type_synonym 'p rigs = "(string \<times> (string \<times> 'p) list) list"

record 'p kapture =
  sensors :: "(string \<times> string list) list option"
  rigs :: "'p rigs option"
  trajectories :: "'p trajectories option"
  records_camera :: "(nat \<times> string \<times> string) list option"
  keypoints :: "string set option"
  matches :: "image_pair set option"

text \<open>
  Truth value of a collection in a Python condition: \<^verbatim>\<open>None\<close> and the empty container
  are false, everything else is true.
\<close>

definition truthy_dict :: "'a list option \<Rightarrow> bool" where
  "truthy_dict c = (case c of None \<Rightarrow> False | Some xs \<Rightarrow> xs \<noteq> [])"

definition truthy_set :: "'a set option \<Rightarrow> bool" where
  "truthy_set c = (case c of None \<Rightarrow> False | Some s \<Rightarrow> s \<noteq> {})"

text \<open>
  The condition of lines 52-53:
  \<^verbatim>\<open>records_camera and sensors and keypoints and matches\<close>.
\<close>

definition mandatory_present :: "'p kapture \<Rightarrow> bool" where
  "mandatory_present k =
     (truthy_dict (records_camera k) \<and> truthy_dict (sensors k) \<and>
      truthy_set (keypoints k) \<and> truthy_set (matches k))"

subsection \<open>Errors, calls and the state\<close>

datatype error =
    ValueError_mandatory
  | RemovalRefused
  | AttributeError
  | DatabaseError
  | SubprocessError int
  | FileNotFoundError

datatype outcome = Ok | Raised error

text \<open>
  What the run does to the outside, in order. \<open>Step n\<close> records that the body of the
  step named \<open>n\<close> has been entered; the other events are calls that reach the file system,
  the database, the user or the external binary.
\<close>

datatype 'p event =
    Step string
  | Prompt string
  | Remove string
  | Connect string
  | KaptureToColmap "'p kapture" string bool
  | Close string
  | Launch string string bool
  | Exit int
  | Umask nat
  | GetImagesAndTrajectories string
  | GetMatches string string bool

record ('db, 'p) state =
  loaded :: "'p kapture"
  files :: "string \<rightharpoonup> 'db"
  db_handles :: nat
  trace :: "'p event list"

type_synonym ('db, 'p) stmt = "('db, 'p) state \<Rightarrow> outcome \<times> ('db, 'p) state"

definition emit :: "'p event \<Rightarrow> ('db, 'p) state \<Rightarrow> ('db, 'p) state" where
  "emit e s = s\<lparr>trace := trace s @ [e]\<rparr>"

text \<open>Sequencing: the second statement runs only if the first one raised nothing.\<close>

definition and_then :: "('db, 'p) stmt \<Rightarrow> ('db, 'p) stmt \<Rightarrow> ('db, 'p) stmt" where
  "and_then f g s = (case f s of (Ok, s') \<Rightarrow> g s' | (Raised e, s') \<Rightarrow> (Raised e, s'))"

text \<open>
  \<^verbatim>\<open>if 'name' not in skip_list: body\<close>. Entering the body is recorded.
\<close>

definition unless_skipped :: "string \<Rightarrow> string list \<Rightarrow> ('db, 'p) stmt \<Rightarrow> ('db, 'p) stmt" where
  "unless_skipped name skip_list body s =
     (if name \<in> set skip_list then (Ok, s) else body (emit (Step name) s))"

subsection \<open>The collaborators\<close>

text \<open>
  The behaviour of the code that this file calls and that lies outside of it is a parameter
  of the model: the answer of the user to a confirmation request, the composition of two
  poses, whether a database file can be opened or created at a path, the content of a
  database file that \<^verbatim>\<open>connect\<close> has just created, what
  \<^verbatim>\<open>kapture_to_colmap\<close> writes (\<open>None\<close>: it raises), what the external binary does to
  the database file and its exit code, and what the two readers of the import step return
  (\<open>None\<close>: they raise); \<^verbatim>\<open>get_matches_from_database\<close> also writes files.
\<close>

record ('db, 'p) collaborators =
  user_confirms :: bool
  pose_compose :: "'p \<Rightarrow> 'p \<Rightarrow> 'p"
  database_opens :: "string \<Rightarrow> bool"
  new_database :: 'db
  export_to_database :: "'p kapture \<Rightarrow> string \<Rightarrow> 'db \<Rightarrow> 'db option"
  external_binary :: "string \<Rightarrow> 'p kapture \<Rightarrow> 'db option \<Rightarrow> int \<times> 'db option"
  images_of_database :: "'db \<Rightarrow> (nat \<times> string \<times> string) list option"
  matches_of_database ::
    "'db \<Rightarrow> (nat \<times> string \<times> string) list \<Rightarrow> string \<Rightarrow> (string \<rightharpoonup> 'db)
       \<Rightarrow> (image_pair set \<times> (string \<rightharpoonup> 'db)) option"

text \<open>\<^verbatim>\<open>os.path.join(a, b)\<close> on POSIX, for a relative \<open>b\<close>.\<close>

definition path_join :: "string \<Rightarrow> string \<Rightarrow> string" where
  "path_join a b =
     (if a = [] then b else if last a = CHR ''/'' then a @ b else a @ ''/'' @ b)"

text \<open>\<^verbatim>\<open>os.remove(path)\<close>: a missing file raises \<^verbatim>\<open>FileNotFoundError\<close>.\<close>

definition os_remove :: "string \<Rightarrow> ('db, 'p) stmt" where
  "os_remove path s =
     (case files s path of
        None \<Rightarrow> (Raised FileNotFoundError, s)
      | Some c \<Rightarrow> (Ok, emit (Remove path) (s\<lparr>files := (files s)(path := None)\<rparr>)))"

text \<open>
  \<^verbatim>\<open>COLMAPDatabase.connect(path)\<close> is \<^verbatim>\<open>sqlite3.connect\<close>: it creates the file when
  there is none and returns an open connection, or raises when the file can be neither
  opened nor created.
\<close>

definition connect :: "('db, 'p) collaborators \<Rightarrow> string \<Rightarrow> ('db, 'p) stmt" where
  "connect env path s =
     (if database_opens env path
      then (Ok, emit (Connect path)
                  (s\<lparr>files := (case files s path of
                                  None \<Rightarrow> (files s)(path \<mapsto> new_database env)
                                | Some c \<Rightarrow> files s),
                     db_handles := Suc (db_handles s)\<rparr>))
      else (Raised DatabaseError, s))"

definition close_db :: "string \<Rightarrow> ('db, 'p) stmt" where
  "close_db path s = (Ok, emit (Close path) (s\<lparr>db_handles := db_handles s - 1\<rparr>))"

text \<open>
  \<^verbatim>\<open>database_extra.kapture_to_colmap(kapture_data, kapture_dirpath, colmap_db,
  export_two_view_geometry=False)\<close> writes the package into the connected database.
\<close>

definition kapture_to_colmap ::
  "('db, 'p) collaborators \<Rightarrow> 'p kapture \<Rightarrow> string \<Rightarrow> string \<Rightarrow> bool \<Rightarrow> ('db, 'p) stmt" where
  "kapture_to_colmap env kapture_data kapture_dirpath path export_two_view_geometry s =
     (let s' = emit (KaptureToColmap kapture_data kapture_dirpath export_two_view_geometry) s
      in case files s path of
           None \<Rightarrow> (Raised DatabaseError, s')
         | Some c \<Rightarrow>
             (case export_to_database env kapture_data kapture_dirpath c of
                None \<Rightarrow> (Raised DatabaseError, s')
              | Some c' \<Rightarrow> (Ok, s'\<lparr>files := (files s)(path \<mapsto> c')\<rparr>)))"

text \<open>
  Modelled from the spec: \<^verbatim>\<open>kapture.utils.paths.safe_remove_file\<close>, whose source is not
  part of the sources verified here. The spec: the step "removes a pre-existing external database file at the fixed path,
  either silently (if forced) or after confirmation/failure if not", and an "existing
  database file without force and without skipping deletion" makes the run abort "rather
  than silently overwriting". So: no file, nothing happens; a file and \<open>force\<close>, it is
  removed; a file and no \<open>force\<close>, the user is asked, and the file is removed on a yes, the
  call fails on anything else.
\<close>

definition safe_remove_file :: "('db, 'p) collaborators \<Rightarrow> string \<Rightarrow> bool \<Rightarrow> ('db, 'p) stmt" where
  "safe_remove_file env filepath force s =
     (case files s filepath of
        None \<Rightarrow> (Ok, s)
      | Some c \<Rightarrow>
          if force then os_remove filepath s
          else (let s' = emit (Prompt filepath) s
                in if user_confirms env then os_remove filepath s'
                   else (Raised RemovalRefused, s')))"

text \<open>
  Modelled from the spec:
  \<^verbatim>\<open>kapture_localization.colmap.colmap_command.run_matches_importer_from_kapture\<close>, whose
  source is not part of the sources verified here. The spec: the step "launches the
  external binary in a blocking subprocess call configured for CPU-only execution"; "the
  external subprocess runs to completion (blocking call) before the next step proceeds";
  "subprocess non-zero exit \<rightarrow> error propagates, run aborts". So: the binary is launched
  on the database path, the call returns when it has exited, and a non-zero exit code is
  raised. The spec says nothing of what \<open>force\<close> does there, and the model does nothing
  with it.
\<close>

definition run_matches_importer_from_kapture ::
  "('db, 'p) collaborators \<Rightarrow> string \<Rightarrow> bool \<Rightarrow> string \<Rightarrow> 'p kapture \<Rightarrow> bool \<Rightarrow> ('db, 'p) stmt" where
  "run_matches_importer_from_kapture env colmap_binary colmap_use_cpu colmap_db_path kapture_data force s =
     (let s1 = emit (Launch colmap_binary colmap_db_path colmap_use_cpu) s;
          (code, content) = external_binary env colmap_binary kapture_data (files s colmap_db_path);
          s2 = emit (Exit code) (s1\<lparr>files := (files s)(colmap_db_path := content)\<rparr>)
      in if code = 0 then (Ok, s2) else (Raised (SubprocessError code), s2))"

text \<open>
  \<^verbatim>\<open>get_images_and_trajectories_from_database(colmap_db)\<close> and
  \<^verbatim>\<open>get_matches_from_database(colmap_db, records_camera, kapture_dirpath,
  no_geometric_filtering=False)\<close>, chained as in lines 102-105: the second one receives
  the image records that the first one has returned.
\<close>

definition get_images_then_matches ::
  "('db, 'p) collaborators \<Rightarrow> string \<Rightarrow> string \<Rightarrow> bool \<Rightarrow> ('db, 'p) stmt" where
  "get_images_then_matches env path kapture_dirpath no_geometric_filtering s =
     (let s1 = emit (GetImagesAndTrajectories path) s
      in case files s path of
           None \<Rightarrow> (Raised DatabaseError, s1)
         | Some c \<Rightarrow>
             (case images_of_database env c of
                None \<Rightarrow> (Raised DatabaseError, s1)
              | Some images \<Rightarrow>
                  (let s2 = emit (GetMatches path kapture_dirpath no_geometric_filtering) s1
                   in case matches_of_database env c images kapture_dirpath (files s) of
                        None \<Rightarrow> (Raised DatabaseError, s2)
                      | Some (verified, files') \<Rightarrow> (Ok, s2\<lparr>files := files'\<rparr>))))"

text \<open>
  Modelled from the spec: \<^verbatim>\<open>kapture.core.Trajectories.rigs_remove_inplace\<close>, whose source
  is not part of the sources verified here. The spec: rig flattening is "replacing
  multi-camera-rig-relative poses with absolute per-camera poses"; it "removes
  multi-camera rig indirection from trajectories so the external tool sees plain camera
  poses"; after it the "trajectories contain only flattened camera poses, no rig reference
  remains". So: a pose recorded for a rig becomes one pose for each member of that rig,
  the pose of the member in the rig composed with the pose of the rig, and a member that is
  itself a rig is replaced in the same way, as deep as there are rigs; a pose recorded for
  anything else stays. Rigs that contain each other have no reading as camera poses: a pose
  that would still be recorded for a rig at that depth is not kept.
\<close>

primrec flatten_pose ::
  "('p \<Rightarrow> 'p \<Rightarrow> 'p) \<Rightarrow> 'p rigs \<Rightarrow> nat \<Rightarrow> nat \<times> string \<times> 'p \<Rightarrow> 'p trajectories" where
  "flatten_pose compose rs 0 e =
     (case e of (timestamp, device_id, pose_device) \<Rightarrow>
        if map_of rs device_id = None then [e] else [])"
| "flatten_pose compose rs (Suc depth) e =
     (case e of (timestamp, device_id, pose_device) \<Rightarrow>
        case map_of rs device_id of
          None \<Rightarrow> [e]
        | Some members \<Rightarrow>
            concat (map (\<lambda>(member_id, pose_member).
                           flatten_pose compose rs depth
                             (timestamp, member_id, compose pose_member pose_device))
                        members))"

definition rigs_remove_inplace ::
  "('p \<Rightarrow> 'p \<Rightarrow> 'p) \<Rightarrow> 'p trajectories \<Rightarrow> 'p rigs \<Rightarrow> 'p trajectories" where
  "rigs_remove_inplace compose traj rs = concat (map (flatten_pose compose rs (length rs)) traj)"

subsection \<open>The statements of \<^verbatim>\<open>run_colmap_gv_from_loaded_data\<close>\<close>

text \<open>Lines 52-54.\<close>

definition check_mandatory :: "('db, 'p) stmt" where
  "check_mandatory s =
     (if \<not> mandatory_present (loaded s) then (Raised ValueError_mandatory, s) else (Ok, s))"

text \<open>Lines 57-60. The trajectories of the loaded dataset are replaced; nothing else is.\<close>

definition remove_rigs :: "('db, 'p) collaborators \<Rightarrow> ('db, 'p) stmt" where
  "remove_rigs env s =
     (case (rigs (loaded s), trajectories (loaded s)) of
        (Some rs, Some traj) \<Rightarrow>
          (Ok, s\<lparr>loaded := (loaded s)\<lparr>trajectories := Some (rigs_remove_inplace (pose_compose env) traj rs)\<rparr>\<rparr>)
      | _ \<Rightarrow> (Ok, s))"

text \<open>Line 63.\<close>

definition colmap_db_path :: "string \<Rightarrow> string" where
  "colmap_db_path kapture_colmap_matches_dirpath = path_join kapture_colmap_matches_dirpath ''colmap.db''"

text \<open>Lines 64-65.\<close>

definition delete_existing :: "('db, 'p) collaborators \<Rightarrow> string \<Rightarrow> string list \<Rightarrow> bool \<Rightarrow> ('db, 'p) stmt" where
  "delete_existing env kapture_colmap_matches_dirpath skip_list force =
     unless_skipped ''delete_existing'' skip_list
       (safe_remove_file env (colmap_db_path kapture_colmap_matches_dirpath) force)"

text \<open>
  Lines 69-73. \<^verbatim>\<open>difference\<close> is the one of Python's sets; calling it on \<^verbatim>\<open>None\<close>
  raises \<^verbatim>\<open>AttributeError\<close>.
\<close>

definition colmap_matches :: "'p kapture \<Rightarrow> image_pair set" where
  "colmap_matches kapture_colmap_matches =
     (case matches kapture_colmap_matches of Some m \<Rightarrow> m | None \<Rightarrow> {})"

definition matches_to_verify :: "'p kapture \<Rightarrow> 'p kapture \<Rightarrow> image_pair set option" where
  "matches_to_verify kapture_none_matches kapture_colmap_matches =
     (case matches kapture_none_matches of
        None \<Rightarrow> None
      | Some m \<Rightarrow> Some (m - colmap_matches kapture_colmap_matches))"

text \<open>Lines 74-78: the other collections of the new object are \<^verbatim>\<open>None\<close>.\<close>

definition kapture_data_to_export :: "'p kapture \<Rightarrow> image_pair set \<Rightarrow> 'p kapture" where
  "kapture_data_to_export kapture_none_matches to_verify =
     \<lparr>sensors = sensors kapture_none_matches,
      rigs = None,
      trajectories = trajectories kapture_none_matches,
      records_camera = records_camera kapture_none_matches,
      keypoints = keypoints kapture_none_matches,
      matches = Some to_verify\<rparr>"

text \<open>Lines 68-95: the body of the \<^verbatim>\<open>matches_importer\<close> step.\<close>

definition matches_importer_body ::
  "('db, 'p) collaborators \<Rightarrow> 'p kapture \<Rightarrow> string \<Rightarrow> string \<Rightarrow> string \<Rightarrow> bool \<Rightarrow> ('db, 'p) stmt" where
  "matches_importer_body env kapture_colmap_matches kapture_none_matches_dirpath
       kapture_colmap_matches_dirpath colmap_binary force s =
     (case matches_to_verify (loaded s) kapture_colmap_matches of
        None \<Rightarrow> (Raised AttributeError, s)
      | Some to_verify \<Rightarrow>
          (let package = kapture_data_to_export (loaded s) to_verify;
               path = colmap_db_path kapture_colmap_matches_dirpath
           in and_then (connect env path)
               (and_then (kapture_to_colmap env package kapture_none_matches_dirpath path False)
                 (and_then (close_db path)
                   (run_matches_importer_from_kapture env colmap_binary True path package force)))
               s))"

text \<open>Lines 67-95.\<close>

definition matches_importer ::
  "('db, 'p) collaborators \<Rightarrow> 'p kapture \<Rightarrow> string \<Rightarrow> string \<Rightarrow> string \<Rightarrow> string list \<Rightarrow> bool
     \<Rightarrow> ('db, 'p) stmt" where
  "matches_importer env kapture_colmap_matches kapture_none_matches_dirpath
       kapture_colmap_matches_dirpath colmap_binary skip_list force =
     unless_skipped ''matches_importer'' skip_list
       (matches_importer_body env kapture_colmap_matches kapture_none_matches_dirpath
          kapture_colmap_matches_dirpath colmap_binary force)"

text \<open>Lines 98-106: the body of the \<^verbatim>\<open>import\<close> step.\<close>

definition import_body :: "('db, 'p) collaborators \<Rightarrow> string \<Rightarrow> ('db, 'p) stmt" where
  "import_body env kapture_colmap_matches_dirpath s =
     (let path = colmap_db_path kapture_colmap_matches_dirpath
      in and_then (connect env path)
          (and_then (get_images_then_matches env path kapture_colmap_matches_dirpath False)
            (close_db path))
          (emit (Umask 2) s))"

text \<open>Lines 97-106.\<close>

definition import_verified ::
  "('db, 'p) collaborators \<Rightarrow> string \<Rightarrow> string list \<Rightarrow> ('db, 'p) stmt" where
  "import_verified env kapture_colmap_matches_dirpath skip_list =
     unless_skipped ''import'' skip_list (import_body env kapture_colmap_matches_dirpath)"

text \<open>Lines 108-110.\<close>

definition delete_db :: "string \<Rightarrow> string list \<Rightarrow> ('db, 'p) stmt" where
  "delete_db kapture_colmap_matches_dirpath skip_list =
     unless_skipped ''delete_db'' skip_list
       (os_remove (colmap_db_path kapture_colmap_matches_dirpath))"

text \<open>
  The state in which the function is entered: the dataset as loaded, the file system as
  found, no connection open, nothing done yet.
\<close>

definition entry :: "'p kapture \<Rightarrow> (string \<rightharpoonup> 'db) \<Rightarrow> ('db, 'p) state" where
  "entry kapture_none_matches fs =
     \<lparr>loaded = kapture_none_matches, files = fs, db_handles = 0, trace = []\<rparr>"

text \<open>The statements up to the end of the import step (lines 52-106).\<close>

definition run_through_import ::
  "('db, 'p) collaborators \<Rightarrow> 'p kapture \<Rightarrow> string \<Rightarrow> string \<Rightarrow> string \<Rightarrow> string list \<Rightarrow> bool
     \<Rightarrow> ('db, 'p) stmt" where
  "run_through_import env kapture_colmap_matches kapture_none_matches_dirpath
       kapture_colmap_matches_dirpath colmap_binary skip_list force =
     and_then check_mandatory
      (and_then (remove_rigs env)
        (and_then (delete_existing env kapture_colmap_matches_dirpath skip_list force)
          (and_then (matches_importer env kapture_colmap_matches kapture_none_matches_dirpath
                       kapture_colmap_matches_dirpath colmap_binary skip_list force)
            (import_verified env kapture_colmap_matches_dirpath skip_list))))"

text \<open>The whole function (lines 44-110), from its entry state.\<close>

definition run_colmap_gv_from_loaded_data ::
  "('db, 'p) collaborators \<Rightarrow> 'p kapture \<Rightarrow> 'p kapture \<Rightarrow> string \<Rightarrow> string \<Rightarrow> string
     \<Rightarrow> string list \<Rightarrow> bool \<Rightarrow> (string \<rightharpoonup> 'db) \<Rightarrow> outcome \<times> ('db, 'p) state" where
  "run_colmap_gv_from_loaded_data env kapture_none_matches kapture_colmap_matches
       kapture_none_matches_dirpath kapture_colmap_matches_dirpath colmap_binary skip_list force fs =
     and_then (run_through_import env kapture_colmap_matches kapture_none_matches_dirpath
                 kapture_colmap_matches_dirpath colmap_binary skip_list force)
              (delete_db kapture_colmap_matches_dirpath skip_list)
              (entry kapture_none_matches fs)"

subsection \<open>What a run shows\<close>

text \<open>The names of the four steps, in the order of the source.\<close>

definition step_names :: "string list" where
  "step_names = [''delete_existing'', ''matches_importer'', ''import'', ''delete_db'']"

text \<open>
  The body of the step of a given name: the call of line 65, the bodies of lines 68-95 and
  98-106, the call of line 110.
\<close>

definition step_body ::
  "('db, 'p) collaborators \<Rightarrow> 'p kapture \<Rightarrow> string \<Rightarrow> string \<Rightarrow> string \<Rightarrow> bool \<Rightarrow> string
     \<Rightarrow> ('db, 'p) stmt" where
  "step_body env kapture_colmap_matches kapture_none_matches_dirpath kapture_colmap_matches_dirpath
       colmap_binary force name =
     (if name = ''delete_existing''
        then safe_remove_file env (colmap_db_path kapture_colmap_matches_dirpath) force
      else if name = ''matches_importer''
        then matches_importer_body env kapture_colmap_matches kapture_none_matches_dirpath
               kapture_colmap_matches_dirpath colmap_binary force
      else if name = ''import''
        then import_body env kapture_colmap_matches_dirpath
      else if name = ''delete_db''
        then os_remove (colmap_db_path kapture_colmap_matches_dirpath)
      else (\<lambda>s. (Ok, s)))"

text \<open>
  Performing a list of steps: the body of each one in turn, entered and recorded, each one
  only if nothing before it raised.
\<close>

fun perform ::
  "('db, 'p) collaborators \<Rightarrow> 'p kapture \<Rightarrow> string \<Rightarrow> string \<Rightarrow> string \<Rightarrow> bool \<Rightarrow> string list
     \<Rightarrow> ('db, 'p) stmt" where
  "perform env colmap nd cd bin force [] s = (Ok, s)"
| "perform env colmap nd cd bin force (name # names) s =
     and_then (\<lambda>s. step_body env colmap nd cd bin force name (emit (Step name) s))
       (perform env colmap nd cd bin force names) s"

text \<open>The steps whose body was entered, in order.\<close>

fun steps_executed :: "'p event list \<Rightarrow> string list" where
  "steps_executed [] = []"
| "steps_executed (Step n # es) = n # steps_executed es"
| "steps_executed (e # es) = steps_executed es"

text \<open>The packages handed to \<^verbatim>\<open>kapture_to_colmap\<close>, in order.\<close>

fun exported_packages :: "'p event list \<Rightarrow> 'p kapture list" where
  "exported_packages [] = []"
| "exported_packages (KaptureToColmap k d b # es) = k # exported_packages es"
| "exported_packages (e # es) = exported_packages es"

text \<open>The files for which the user was asked a confirmation, in order.\<close>

fun prompts :: "'p event list \<Rightarrow> string list" where
  "prompts [] = []"
| "prompts (Prompt f # es) = f # prompts es"
| "prompts (e # es) = prompts es"

text \<open>
  The lifetime of the database connections along a sequence of events, read from a number
  of open connections and from whether the external binary is running. The result is
  \<open>None\<close> as soon as the binary is launched while a connection is open, a connection is
  opened or closed or anything else is done while the binary runs, an exit comes with no
  binary running, or a connection is closed that was not open.
\<close>

fun lifetime :: "nat \<times> bool \<Rightarrow> 'p event list \<Rightarrow> (nat \<times> bool) option" where
  "lifetime st [] = Some st"
| "lifetime (n, running) (Connect f # es) =
     (if running then None else lifetime (Suc n, False) es)"
| "lifetime (n, running) (Close f # es) =
     (if running \<or> n = 0 then None else lifetime (n - 1, False) es)"
| "lifetime (n, running) (Launch b f c # es) =
     (if running \<or> n \<noteq> 0 then None else lifetime (n, True) es)"
| "lifetime (n, running) (Exit c # es) =
     (if running then lifetime (n, False) es else None)"
| "lifetime (n, running) (e # es) =
     (if running then None else lifetime (n, running) es)"

text \<open>
  The sequence respects the lifetime rules from no connection and no binary running, and
  the binary is not left running at its end.
\<close>

definition closed_while_binary_runs :: "'p event list \<Rightarrow> bool" where
  "closed_while_binary_runs es =
     (case lifetime (0, False) es of None \<Rightarrow> False | Some (n, running) \<Rightarrow> \<not> running)"

text \<open>A rig reference in trajectories is a pose recorded for the name of a rig.\<close>

definition rig_free :: "'p rigs \<Rightarrow> 'p trajectories \<Rightarrow> bool" where
  "rig_free rs traj = list_all (\<lambda>(timestamp, device_id, pose). map_of rs device_id = None) traj"

text \<open>The statements after the \<^verbatim>\<open>delete_existing\<close> step (lines 67-110).\<close>

definition run_after_delete_existing ::
  "('db, 'p) collaborators \<Rightarrow> 'p kapture \<Rightarrow> string \<Rightarrow> string \<Rightarrow> string \<Rightarrow> string list \<Rightarrow> bool
     \<Rightarrow> ('db, 'p) stmt" where
  "run_after_delete_existing env kapture_colmap_matches kapture_none_matches_dirpath
       kapture_colmap_matches_dirpath colmap_binary skip_list force =
     and_then (matches_importer env kapture_colmap_matches kapture_none_matches_dirpath
                 kapture_colmap_matches_dirpath colmap_binary skip_list force)
       (and_then (import_verified env kapture_colmap_matches_dirpath skip_list)
          (delete_db kapture_colmap_matches_dirpath skip_list))"

subsection \<open>A small dataset\<close>

text \<open>
  Three images, taken by a rig of two cameras and by one of the cameras alone; three
  candidate pairs, one of which is already verified. Poses are integers, composed by
  addition. A database is the set of pairs it holds and whether they have been verified.
\<close>

definition example_unverified :: "int kapture" where
  "example_unverified =
     \<lparr>sensors = Some [(''cam0'', [''camera'', ''SIMPLE_PINHOLE'']), (''cam1'', [''camera'', ''SIMPLE_PINHOLE''])],
      rigs = Some [(''rig'', [(''cam0'', 1), (''cam1'', 2)])],
      trajectories = Some [(0, ''rig'', 10), (1, ''cam0'', 20)],
      records_camera = Some [(0, ''cam0'', ''a.jpg''), (0, ''cam1'', ''b.jpg''), (1, ''cam0'', ''c.jpg'')],
      keypoints = Some {''a.jpg'', ''b.jpg'', ''c.jpg''},
      matches = Some {(''a.jpg'', ''b.jpg''), (''a.jpg'', ''c.jpg''), (''b.jpg'', ''c.jpg'')}\<rparr>"

text \<open>The same dataset with the second camera on a rig mounted on the first rig.\<close>

definition example_nested :: "int kapture" where
  "example_nested =
     example_unverified
       \<lparr>rigs := Some [(''rig'', [(''cam0'', 1), (''arm'', 2)]), (''arm'', [(''cam1'', 3)])]\<rparr>"

definition example_verified :: "int kapture" where
  "example_verified =
     \<lparr>sensors = None, rigs = None, trajectories = None, records_camera = None, keypoints = None,
      matches = Some {(''a.jpg'', ''b.jpg'')}\<rparr>"

definition example_collaborators :: "(image_pair set \<times> bool, int) collaborators" where
  "example_collaborators =
     \<lparr>user_confirms = False,
      pose_compose = (\<lambda>p q. p + q),
      database_opens = (\<lambda>path. True),
      new_database = ({}, False),
      export_to_database = (\<lambda>k d c. Some (case matches k of None \<Rightarrow> {} | Some m \<Rightarrow> m, False)),
      external_binary = (\<lambda>b k c. (0, map_option (\<lambda>(m, v). (m, True)) c)),
      images_of_database = (\<lambda>c. Some [(0, ''cam0'', ''a.jpg'')]),
      matches_of_database = (\<lambda>c images d fs. Some (fst c, fs))\<rparr>"

text \<open>The same collaborators with an external binary that fails with exit code 1.\<close>

definition example_failing_binary :: "(image_pair set \<times> bool, int) collaborators" where
  "example_failing_binary = example_collaborators\<lparr>external_binary := (\<lambda>b k c. (1, c))\<rparr>"

subsection \<open>Reasoning about statements\<close>

text \<open>
  \<open>triple P f Q E\<close>: from a state where \<open>P\<close> holds, \<open>f\<close> ends in a state where \<open>Q\<close> holds
  if it raises nothing, and in a state where \<open>E e\<close> holds if it raises \<open>e\<close>.
\<close>

definition triple ::
  "(('db, 'p) state \<Rightarrow> bool) \<Rightarrow> ('db, 'p) stmt \<Rightarrow> (('db, 'p) state \<Rightarrow> bool)
     \<Rightarrow> (error \<Rightarrow> ('db, 'p) state \<Rightarrow> bool) \<Rightarrow> bool" where
  "triple P f Q E =
     (\<forall>s. P s \<longrightarrow> (case f s of (Ok, s') \<Rightarrow> Q s' | (Raised e, s') \<Rightarrow> E e s'))"

section \<open>Properties\<close>

subsection \<open>Rules for statements\<close>

lemma and_then_Ok: "f s = (Ok, s') \<Longrightarrow> and_then f g s = g s'"
  by (simp add: and_then_def)

lemma and_then_Raised: "f s = (Raised e, s') \<Longrightarrow> and_then f g s = (Raised e, s')"
  by (simp add: and_then_def)

lemma and_then_assoc: "and_then (and_then f g) h = and_then f (and_then g h)"
  by (rule ext) (simp add: and_then_def split: prod.splits outcome.splits)

lemma tripleI:
  assumes "\<And>s s'. P s \<Longrightarrow> f s = (Ok, s') \<Longrightarrow> Q s'"
    and "\<And>s e s'. P s \<Longrightarrow> f s = (Raised e, s') \<Longrightarrow> E e s'"
  shows "triple P f Q E"
  unfolding triple_def using assms by (auto split: prod.splits outcome.splits)

lemma triple_Ok: "triple P f Q E \<Longrightarrow> P s \<Longrightarrow> f s = (Ok, s') \<Longrightarrow> Q s'"
  unfolding triple_def by fastforce

lemma triple_Raised: "triple P f Q E \<Longrightarrow> P s \<Longrightarrow> f s = (Raised e, s') \<Longrightarrow> E e s'"
  unfolding triple_def by fastforce

lemma triple_and_then:
  assumes f: "triple P f Q E" and g: "triple Q g R E"
  shows "triple P (and_then f g) R E"
proof (rule tripleI)
  fix s s' assume P: "P s" and r: "and_then f g s = (Ok, s')"
  obtain o1 s1 where fs: "f s = (o1, s1)" by (cases "f s")
  show "R s'"
  proof (cases o1)
    case Ok
    with fs P f have "Q s1" by (auto dest: triple_Ok)
    moreover from Ok fs r have "g s1 = (Ok, s')" by (simp add: and_then_def)
    ultimately show ?thesis using g by (auto dest: triple_Ok)
  next
    case (Raised e)
    with fs r show ?thesis by (simp add: and_then_def)
  qed
next
  fix s e s' assume P: "P s" and r: "and_then f g s = (Raised e, s')"
  obtain o1 s1 where fs: "f s = (o1, s1)" by (cases "f s")
  show "E e s'"
  proof (cases o1)
    case Ok
    with fs P f have "Q s1" by (auto dest: triple_Ok)
    moreover from Ok fs r have "g s1 = (Raised e, s')" by (simp add: and_then_def)
    ultimately show ?thesis using g by (auto dest: triple_Raised)
  next
    case (Raised e')
    with fs r have "f s = (Raised e, s')" by (simp add: and_then_def)
    with P f show ?thesis by (auto dest: triple_Raised)
  qed
qed

lemma triple_weaken:
  assumes t: "triple P f Q E"
    and p: "\<And>s. P' s \<Longrightarrow> P s" and q: "\<And>s. Q s \<Longrightarrow> Q' s" and e: "\<And>e s. E e s \<Longrightarrow> E' e s"
  shows "triple P' f Q' E'"
proof (rule tripleI)
  fix s s' assume "P' s" "f s = (Ok, s')"
  then show "Q' s'" using triple_Ok [OF t] p q by blast
next
  fix s er s' assume "P' s" "f s = (Raised er, s')"
  then show "E' er s'" using triple_Raised [OF t] p e by blast
qed

lemma triple_unless_skipped:
  assumes body: "name \<notin> set skip_list \<Longrightarrow> triple (\<lambda>s. \<exists>s0. P s0 \<and> s = emit (Step name) s0) body Q E"
    and skip: "\<And>s. name \<in> set skip_list \<Longrightarrow> P s \<Longrightarrow> Q s"
  shows "triple P (unless_skipped name skip_list body) Q E"
proof (rule tripleI)
  fix s s' assume P: "P s" and r: "unless_skipped name skip_list body s = (Ok, s')"
  show "Q s'"
  proof (cases "name \<in> set skip_list")
    case True
    with r have "s' = s" by (simp add: unless_skipped_def)
    with skip True P show ?thesis by simp
  next
    case False
    with r have "body (emit (Step name) s) = (Ok, s')" by (simp add: unless_skipped_def)
    with triple_Ok [OF body [OF False]] P show ?thesis by blast
  qed
next
  fix s er s' assume P: "P s" and r: "unless_skipped name skip_list body s = (Raised er, s')"
  show "E er s'"
  proof (cases "name \<in> set skip_list")
    case True
    with r show ?thesis by (simp add: unless_skipped_def)
  next
    case False
    with r have "body (emit (Step name) s) = (Raised er, s')" by (simp add: unless_skipped_def)
    with triple_Raised [OF body [OF False]] P show ?thesis by blast
  qed
qed

lemma triple_result:
  assumes "triple P f Q E" and "P s"
  shows "(fst (f s) = Ok \<longrightarrow> Q (snd (f s))) \<and> (\<forall>e. fst (f s) = Raised e \<longrightarrow> E e (snd (f s)))"
  using assms unfolding triple_def by (cases "f s") (auto split: outcome.splits)

lemma triple_always:
  assumes "triple P f I (\<lambda>e. I)" and "P s"
  shows "I (snd (f s))"
proof (cases "fst (f s)")
  case Ok
  with triple_result [OF assms] show ?thesis by simp
next
  case (Raised e)
  with triple_result [OF assms] show ?thesis by simp
qed

lemmas stmt_defs = os_remove_def connect_def close_db_def kapture_to_colmap_def
  safe_remove_file_def run_matches_importer_from_kapture_def get_images_then_matches_def emit_def

lemmas step_defs = delete_existing_def matches_importer_def import_verified_def delete_db_def
  matches_importer_body_def import_body_def unless_skipped_def and_then_def Let_def

lemmas run_defs = run_colmap_gv_from_loaded_data_def run_through_import_def entry_def
  check_mandatory_def remove_rigs_def

lemmas example_defs = example_unverified_def example_nested_def example_verified_def
  example_collaborators_def example_failing_binary_def
  mandatory_present_def truthy_dict_def truthy_set_def colmap_db_path_def path_join_def
  matches_to_verify_def colmap_matches_def kapture_data_to_export_def rigs_remove_inplace_def

subsection \<open>The check of the mandatory collections\<close>

lemma mandatory_present_iff:
  "mandatory_present k \<longleftrightarrow>
     \<not> (records_camera k = None \<or> records_camera k = Some [] \<or>
        sensors k = None \<or> sensors k = Some [] \<or>
        keypoints k = None \<or> keypoints k = Some {} \<or>
        matches k = None \<or> matches k = Some {})"
  by (auto simp: mandatory_present_def truthy_dict_def truthy_set_def split: option.splits)

lemma delete_existing_not_mandatory:
  "fst (delete_existing env cd skip_list force s) \<noteq> Raised ValueError_mandatory"
  by (simp add: step_defs stmt_defs split: option.splits prod.splits outcome.splits)

lemma matches_importer_not_mandatory:
  "fst (matches_importer env colmap nd cd bin skip_list force s) \<noteq> Raised ValueError_mandatory"
  by (simp add: step_defs stmt_defs split: option.splits prod.splits outcome.splits)

lemma import_verified_not_mandatory:
  "fst (import_verified env cd skip_list s) \<noteq> Raised ValueError_mandatory"
  by (simp add: step_defs stmt_defs split: option.splits prod.splits outcome.splits)

lemma delete_db_not_mandatory:
  "fst (delete_db cd skip_list s) \<noteq> Raised ValueError_mandatory"
  by (simp add: step_defs stmt_defs split: option.splits prod.splits outcome.splits)

lemma and_then_not_raising:
  assumes "\<And>s. fst (f s) \<noteq> Raised e" and "\<And>s. fst (g s) \<noteq> Raised e"
  shows "fst (and_then f g s) \<noteq> Raised e"
proof (cases "f s")
  case (Pair r s')
  show ?thesis
  proof (cases r)
    case Ok
    with Pair assms(2) [of s'] show ?thesis by (simp add: and_then_def)
  next
    case (Raised e')
    with Pair assms(1) [of s] show ?thesis by (simp add: and_then_def)
  qed
qed

lemma remove_rigs_Ok: "fst (remove_rigs env s) = Ok"
  by (simp add: remove_rigs_def split: option.splits)

lemma steps_not_mandatory:
  "fst (and_then (remove_rigs env)
          (and_then (delete_existing env cd skip_list force)
            (and_then (matches_importer env colmap nd cd bin skip_list force)
              (and_then (import_verified env cd skip_list) (delete_db cd skip_list)))) s)
     \<noteq> Raised ValueError_mandatory"
  by (intro and_then_not_raising delete_existing_not_mandatory matches_importer_not_mandatory
        import_verified_not_mandatory delete_db_not_mandatory) (simp add: remove_rigs_Ok)

lemma run_unfold:
  "run_colmap_gv_from_loaded_data env none colmap nd cd bin skip_list force fs =
     and_then check_mandatory
       (and_then (remove_rigs env)
         (and_then (delete_existing env cd skip_list force)
           (and_then (matches_importer env colmap nd cd bin skip_list force)
             (and_then (import_verified env cd skip_list) (delete_db cd skip_list)))))
       (entry none fs)"
  by (simp add: run_colmap_gv_from_loaded_data_def run_through_import_def and_then_assoc)

lemma run_invalid:
  assumes "\<not> mandatory_present none"
  shows "run_colmap_gv_from_loaded_data env none colmap nd cd bin skip_list force fs
           = (Raised ValueError_mandatory, entry none fs)"
proof -
  from assms have "check_mandatory (entry none fs) = (Raised ValueError_mandatory, entry none fs)"
    by (simp add: check_mandatory_def entry_def)
  then show ?thesis unfolding run_unfold by (simp add: and_then_Raised)
qed

lemma run_valid:
  assumes "mandatory_present none"
  shows "run_colmap_gv_from_loaded_data env none colmap nd cd bin skip_list force fs
           = and_then (delete_existing env cd skip_list force)
               (run_after_delete_existing env colmap nd cd bin skip_list force)
               (snd (remove_rigs env (entry none fs)))"
proof -
  from assms have "check_mandatory (entry none fs) = (Ok, entry none fs)"
    by (simp add: check_mandatory_def entry_def)
  moreover have "remove_rigs env (entry none fs) = (Ok, snd (remove_rigs env (entry none fs)))"
    using remove_rigs_Ok [of env "entry none fs"] by (simp add: prod_eq_iff)
  ultimately show ?thesis
    unfolding run_unfold run_after_delete_existing_def by (simp add: and_then_Ok)
qed

text \<open>
  C2. The run raises the error of the mandatory collections if and only if the image
  records, the sensors, the keypoints or the matches of the unverified dataset are missing
  or empty; and when it does, nothing has been done: no call has been made, the files are
  as they were, no connection is open and the loaded dataset is untouched.
\<close>

theorem mandatory_error_iff_missing_and_before_io:
  "(fst (run_colmap_gv_from_loaded_data env none colmap nd cd bin skip_list force fs)
       = Raised ValueError_mandatory
     \<longleftrightarrow> (records_camera none = None \<or> records_camera none = Some [] \<or>
          sensors none = None \<or> sensors none = Some [] \<or>
          keypoints none = None \<or> keypoints none = Some {} \<or>
          matches none = None \<or> matches none = Some {}))
   \<and> (fst (run_colmap_gv_from_loaded_data env none colmap nd cd bin skip_list force fs)
         = Raised ValueError_mandatory
       \<longrightarrow> snd (run_colmap_gv_from_loaded_data env none colmap nd cd bin skip_list force fs)
           = \<lparr>loaded = none, files = fs, db_handles = 0, trace = []\<rparr>)"
proof (cases "mandatory_present none")
  case True
  then have "check_mandatory (entry none fs) = (Ok, entry none fs)"
    by (simp add: check_mandatory_def entry_def)
  then have "fst (run_colmap_gv_from_loaded_data env none colmap nd cd bin skip_list force fs)
      \<noteq> Raised ValueError_mandatory"
    unfolding run_unfold by (simp add: and_then_Ok steps_not_mandatory)
  with True show ?thesis by (simp add: mandatory_present_iff)
next
  case False
  from run_invalid [OF False, of env colmap nd cd bin skip_list force fs] False
  show ?thesis by (simp add: mandatory_present_iff entry_def)
qed

theorem mandatory_error_iff_missing_and_before_io_witness:
  "run_colmap_gv_from_loaded_data example_collaborators (example_unverified\<lparr>matches := Some {}\<rparr>)
       example_verified ''in'' ''out'' ''colmap'' [] True [''out/colmap.db'' \<mapsto> ({}, True)]
     = (Raised ValueError_mandatory,
        \<lparr>loaded = example_unverified\<lparr>matches := Some {}\<rparr>,
         files = [''out/colmap.db'' \<mapsto> ({}, True)], db_handles = 0, trace = []\<rparr>)"
  using mandatory_error_iff_missing_and_before_io
    [of example_collaborators "example_unverified\<lparr>matches := Some {}\<rparr>" example_verified
        "''in''" "''out''" "''colmap''" "[]" True "[''out/colmap.db'' \<mapsto> ({}, True)]"]
  by (simp add: prod_eq_iff)

subsection \<open>The order of the steps\<close>

lemma steps_executed_append: "steps_executed (es @ es') = steps_executed es @ steps_executed es'"
  by (induction es rule: steps_executed.induct) simp_all

lemma check_mandatory_trace:
  "triple (\<lambda>s. P (trace s)) check_mandatory (\<lambda>s. P (trace s)) (\<lambda>e s. P (trace s))"
  by (rule tripleI) (auto simp: check_mandatory_def split: if_splits)

lemma remove_rigs_trace:
  "triple (\<lambda>s. P (trace s)) (remove_rigs env) (\<lambda>s. P (trace s)) (\<lambda>e s. P (trace s))"
  by (rule tripleI) (auto simp: remove_rigs_def split: option.splits)

lemma delete_existing_steps:
  "triple (\<lambda>s. steps_executed (trace s) = A)
     (delete_existing env cd skip_list force)
     (\<lambda>s. steps_executed (trace s) = A @ filter (\<lambda>n. n \<notin> set skip_list) [''delete_existing''])
     (\<lambda>e s. steps_executed (trace s) = A @ filter (\<lambda>n. n \<notin> set skip_list) [''delete_existing''])"
  by (rule tripleI)
     (auto simp: step_defs stmt_defs steps_executed_append
           split: option.splits prod.splits outcome.splits if_splits)

lemma matches_importer_steps:
  "triple (\<lambda>s. steps_executed (trace s) = A)
     (matches_importer env colmap nd cd bin skip_list force)
     (\<lambda>s. steps_executed (trace s) = A @ filter (\<lambda>n. n \<notin> set skip_list) [''matches_importer''])
     (\<lambda>e s. steps_executed (trace s) = A @ filter (\<lambda>n. n \<notin> set skip_list) [''matches_importer''])"
  by (rule tripleI)
     (auto simp: step_defs stmt_defs steps_executed_append
           split: option.splits prod.splits outcome.splits if_splits)

lemma import_verified_steps:
  "triple (\<lambda>s. steps_executed (trace s) = A)
     (import_verified env cd skip_list)
     (\<lambda>s. steps_executed (trace s) = A @ filter (\<lambda>n. n \<notin> set skip_list) [''import''])
     (\<lambda>e s. steps_executed (trace s) = A @ filter (\<lambda>n. n \<notin> set skip_list) [''import''])"
  by (rule tripleI)
     (auto simp: step_defs stmt_defs steps_executed_append
           split: option.splits prod.splits outcome.splits if_splits)

lemma delete_db_steps:
  "triple (\<lambda>s. steps_executed (trace s) = A)
     (delete_db cd skip_list)
     (\<lambda>s. steps_executed (trace s) = A @ filter (\<lambda>n. n \<notin> set skip_list) [''delete_db''])
     (\<lambda>e s. steps_executed (trace s) = A @ filter (\<lambda>n. n \<notin> set skip_list) [''delete_db''])"
  by (rule tripleI)
     (auto simp: step_defs stmt_defs steps_executed_append
           split: option.splits prod.splits outcome.splits if_splits)

lemma steps_executed_of_run:
  fixes env :: "('db, 'p) collaborators"
  shows "prefix (steps_executed (trace (snd (run_colmap_gv_from_loaded_data env none colmap nd cd bin
                    skip_list force fs))))
           (filter (\<lambda>n. n \<notin> set skip_list) step_names)
   \<and> (fst (run_colmap_gv_from_loaded_data env none colmap nd cd bin skip_list force fs) = Ok
      \<longrightarrow> steps_executed (trace (snd (run_colmap_gv_from_loaded_data env none colmap nd cd bin
                    skip_list force fs)))
            = filter (\<lambda>n. n \<notin> set skip_list) step_names)"
proof -
  define f where "f n = filter (\<lambda>n. n \<notin> set skip_list) [n]" for n :: string
  define F where "F = filter (\<lambda>n. n \<notin> set skip_list) step_names"
  have F: "F = f ''delete_existing'' @ f ''matches_importer'' @ f ''import'' @ f ''delete_db''"
    by (simp add: F_def f_def step_names_def)
  let ?E = "\<lambda>(e::error) (s::('db, 'p) state). prefix (steps_executed (trace s)) F"
  let ?at = "\<lambda>A (s::('db, 'p) state). steps_executed (trace s) = A"
  have t0: "triple (?at []) check_mandatory (?at []) ?E"
    by (rule triple_weaken [OF check_mandatory_trace [of "\<lambda>t. steps_executed t = []"]]) simp_all
  have t1: "triple (?at []) (remove_rigs env) (?at []) ?E"
    by (rule triple_weaken [OF remove_rigs_trace [of "\<lambda>t. steps_executed t = []"]]) simp_all
  have t2: "triple (?at []) (delete_existing env cd skip_list force) (?at (f ''delete_existing'')) ?E"
    by (rule triple_weaken [OF delete_existing_steps [of "[]"]]) (simp_all add: F f_def)
  have t3: "triple (?at (f ''delete_existing'')) (matches_importer env colmap nd cd bin skip_list force)
              (?at (f ''delete_existing'' @ f ''matches_importer'')) ?E"
    by (rule triple_weaken [OF matches_importer_steps [of "f ''delete_existing''"]])
       (simp_all add: F f_def)
  have t4: "triple (?at (f ''delete_existing'' @ f ''matches_importer'')) (import_verified env cd skip_list)
              (?at (f ''delete_existing'' @ f ''matches_importer'' @ f ''import'')) ?E"
    by (rule triple_weaken [OF import_verified_steps [of "f ''delete_existing'' @ f ''matches_importer''"]])
       (simp_all add: F f_def)
  have t5: "triple (?at (f ''delete_existing'' @ f ''matches_importer'' @ f ''import''))
              (delete_db cd skip_list) (?at F) ?E"
    by (rule triple_weaken
          [OF delete_db_steps [of "f ''delete_existing'' @ f ''matches_importer'' @ f ''import''"]])
       (simp_all add: F f_def)
  have "triple (?at [])
          (and_then check_mandatory
            (and_then (remove_rigs env)
              (and_then (delete_existing env cd skip_list force)
                (and_then (matches_importer env colmap nd cd bin skip_list force)
                  (and_then (import_verified env cd skip_list) (delete_db cd skip_list))))))
          (?at F) ?E"
    by (rule triple_and_then [OF t0 triple_and_then [OF t1 triple_and_then [OF t2
          triple_and_then [OF t3 triple_and_then [OF t4 t5]]]]])
  from triple_result [OF this, of "entry none fs"]
  show ?thesis
    unfolding run_unfold F_def [symmetric]
    by (cases "fst (and_then check_mandatory
            (and_then (remove_rigs env)
              (and_then (delete_existing env cd skip_list force)
                (and_then (matches_importer env colmap nd cd bin skip_list force)
                  (and_then (import_verified env cd skip_list) (delete_db cd skip_list)))))
            (entry none fs))")
       (simp_all add: entry_def)
qed

lemma and_then_done: "and_then f (\<lambda>s. (Ok, s)) = f"
  by (rule ext) (simp add: and_then_def split: prod.splits outcome.splits)

lemma done_and_then: "and_then (\<lambda>s. (Ok, s)) g = g"
  by (rule ext) (simp add: and_then_def)

lemma perform_Nil: "perform env colmap nd cd bin force [] = (\<lambda>s. (Ok, s))"
  by (rule ext) simp

lemma perform_Cons:
  "perform env colmap nd cd bin force (name # names) =
     and_then (\<lambda>s. step_body env colmap nd cd bin force name (emit (Step name) s))
       (perform env colmap nd cd bin force names)"
  by (rule ext) simp

lemma unless_skipped_perform:
  "and_then (unless_skipped name skip_list (step_body env colmap nd cd bin force name))
       (perform env colmap nd cd bin force (filter (\<lambda>n. n \<notin> set skip_list) names))
     = perform env colmap nd cd bin force (filter (\<lambda>n. n \<notin> set skip_list) (name # names))"
proof (cases "name \<in> set skip_list")
  case True
  then have "unless_skipped name skip_list (step_body env colmap nd cd bin force name) = (\<lambda>s. (Ok, s))"
    by (rule_tac ext) (simp add: unless_skipped_def)
  with True show ?thesis by (simp add: done_and_then)
next
  case False
  then have "unless_skipped name skip_list (step_body env colmap nd cd bin force name)
      = (\<lambda>s. step_body env colmap nd cd bin force name (emit (Step name) s))"
    by (rule_tac ext) (simp add: unless_skipped_def)
  with False show ?thesis by (simp add: perform_Cons)
qed

lemma steps_as_bodies:
  "delete_existing env cd skip_list force
     = unless_skipped ''delete_existing'' skip_list (step_body env colmap nd cd bin force ''delete_existing'')"
  "matches_importer env colmap nd cd bin skip_list force
     = unless_skipped ''matches_importer'' skip_list (step_body env colmap nd cd bin force ''matches_importer'')"
  "import_verified env cd skip_list
     = unless_skipped ''import'' skip_list (step_body env colmap nd cd bin force ''import'')"
  "delete_db cd skip_list
     = unless_skipped ''delete_db'' skip_list (step_body env colmap nd cd bin force ''delete_db'')"
  by (simp_all add: delete_existing_def matches_importer_def import_verified_def delete_db_def
        step_body_def)

lemma run_as_perform:
  "run_colmap_gv_from_loaded_data env none colmap nd cd bin skip_list force fs
     = and_then check_mandatory
         (and_then (remove_rigs env)
            (perform env colmap nd cd bin force (filter (\<lambda>n. n \<notin> set skip_list) step_names)))
         (entry none fs)"
proof -
  have "and_then (delete_existing env cd skip_list force)
           (and_then (matches_importer env colmap nd cd bin skip_list force)
             (and_then (import_verified env cd skip_list) (delete_db cd skip_list)))
      = perform env colmap nd cd bin force (filter (\<lambda>n. n \<notin> set skip_list) step_names)"
    unfolding step_names_def
    apply (subst unless_skipped_perform [symmetric])
    apply (subst unless_skipped_perform [symmetric])
    apply (subst unless_skipped_perform [symmetric])
    apply (subst unless_skipped_perform [symmetric])
    apply (simp add: perform_Nil and_then_done
             steps_as_bodies [where env = env and cd = cd and skip_list = skip_list and force = force
               and colmap = colmap and nd = nd and bin = bin])
    done
  then show ?thesis unfolding run_unfold by simp
qed

text \<open>
  C4, as stated, fails when a statement raises: with an empty skip list and an external
  binary that exits with code 1, the run ends in the \<^verbatim>\<open>matches_importer\<close> step, and
  \<^verbatim>\<open>import\<close> and \<^verbatim>\<open>delete_db\<close>, which are not skipped, are not executed; with an empty
  skip list and no matches in the unverified dataset, the run ends at line 54 and no step
  is executed.
\<close>

theorem steps_not_executed_after_error:
  "fst (run_colmap_gv_from_loaded_data example_failing_binary example_unverified example_verified
          ''in'' ''out'' ''colmap'' [] True Map.empty) = Raised (SubprocessError 1)
   \<and> trace (snd (run_colmap_gv_from_loaded_data example_failing_binary example_unverified
          example_verified ''in'' ''out'' ''colmap'' [] True Map.empty))
     = [Step ''delete_existing'', Step ''matches_importer'', Connect ''out/colmap.db'',
        KaptureToColmap
          (kapture_data_to_export
             (example_unverified\<lparr>trajectories := Some [(0, ''cam0'', 11), (0, ''cam1'', 12), (1, ''cam0'', 20)]\<rparr>)
             {(''a.jpg'', ''c.jpg''), (''b.jpg'', ''c.jpg'')})
          ''in'' False,
        Close ''out/colmap.db'', Launch ''colmap'' ''out/colmap.db'' True, Exit 1]
   \<and> \<not> (''import'' \<in> set (steps_executed (trace (snd (run_colmap_gv_from_loaded_data
            example_failing_binary example_unverified example_verified ''in'' ''out'' ''colmap'' []
            True Map.empty))))
        \<longleftrightarrow> ''import'' \<notin> set [])
   \<and> fst (run_colmap_gv_from_loaded_data example_collaborators (example_unverified\<lparr>matches := None\<rparr>)
          example_verified ''in'' ''out'' ''colmap'' [] True Map.empty) = Raised ValueError_mandatory
   \<and> \<not> (''delete_existing'' \<in> set (steps_executed (trace (snd (run_colmap_gv_from_loaded_data
            example_collaborators (example_unverified\<lparr>matches := None\<rparr>) example_verified ''in''
            ''out'' ''colmap'' [] True Map.empty))))
        \<longleftrightarrow> ''delete_existing'' \<notin> set [])"
  by (simp add: run_defs step_defs stmt_defs example_defs)

text \<open>
  C4, amended. Whatever the skip list, the run is the check of the mandatory collections,
  the removal of the rigs, and then the bodies of the steps that are not in the skip list,
  performed in the order \<^verbatim>\<open>delete_existing\<close>, \<^verbatim>\<open>matches_importer\<close>, \<^verbatim>\<open>import\<close>,
  \<^verbatim>\<open>delete_db\<close>, each one only if nothing before it raised. So the steps executed are
  always the first of the non-skipped steps, in that order; and in a run that raises
  nothing they are all of them: a step is executed if and only if its name is not in the
  skip list, and skipping a step removes that step alone.
\<close>

theorem run_performs_non_skipped_steps_in_order:
  fixes env :: "('db, 'p) collaborators"
  shows "run_colmap_gv_from_loaded_data env none colmap nd cd bin skip_list force fs
           = and_then check_mandatory
               (and_then (remove_rigs env)
                  (perform env colmap nd cd bin force (filter (\<lambda>n. n \<notin> set skip_list) step_names)))
               (entry none fs)
   \<and> prefix (steps_executed (trace (snd (run_colmap_gv_from_loaded_data env none colmap nd cd bin
                    skip_list force fs))))
        (filter (\<lambda>n. n \<notin> set skip_list) step_names)
   \<and> (fst (run_colmap_gv_from_loaded_data env none colmap nd cd bin skip_list force fs) = Ok
      \<longrightarrow> steps_executed (trace (snd (run_colmap_gv_from_loaded_data env none colmap nd cd bin
                    skip_list force fs)))
            = filter (\<lambda>n. n \<notin> set skip_list) step_names)"
  using run_as_perform [of env none colmap nd cd bin skip_list force fs]
    steps_executed_of_run [of env none colmap nd cd bin skip_list force fs]
  by (intro conjI) simp_all

theorem run_performs_non_skipped_steps_in_order_witness:
  "fst (run_colmap_gv_from_loaded_data example_collaborators example_unverified example_verified
          ''in'' ''out'' ''colmap'' [''import''] True [''out/colmap.db'' \<mapsto> ({}, True)]) = Ok
   \<and> steps_executed (trace (snd (run_colmap_gv_from_loaded_data example_collaborators
          example_unverified example_verified ''in'' ''out'' ''colmap'' [''import''] True
          [''out/colmap.db'' \<mapsto> ({}, True)])))
     = [''delete_existing'', ''matches_importer'', ''delete_db'']
   \<and> trace (snd (run_colmap_gv_from_loaded_data example_collaborators example_unverified
          example_verified ''in'' ''out'' ''colmap'' [''import''] True
          [''out/colmap.db'' \<mapsto> ({}, True)]))
     = [Step ''delete_existing'', Remove ''out/colmap.db'',
        Step ''matches_importer'', Connect ''out/colmap.db'',
        KaptureToColmap
          (kapture_data_to_export
             (example_unverified\<lparr>trajectories := Some [(0, ''cam0'', 11), (0, ''cam1'', 12), (1, ''cam0'', 20)]\<rparr>)
             {(''a.jpg'', ''c.jpg''), (''b.jpg'', ''c.jpg'')})
          ''in'' False,
        Close ''out/colmap.db'', Launch ''colmap'' ''out/colmap.db'' True, Exit 0,
        Step ''delete_db'', Remove ''out/colmap.db'']
   \<and> files (snd (run_colmap_gv_from_loaded_data example_collaborators example_unverified
          example_verified ''in'' ''out'' ''colmap'' [''import''] True
          [''out/colmap.db'' \<mapsto> ({}, True)])) ''out/colmap.db'' = None"
proof -
  have ok: "fst (run_colmap_gv_from_loaded_data example_collaborators example_unverified
          example_verified ''in'' ''out'' ''colmap'' [''import''] True
          [''out/colmap.db'' \<mapsto> ({}, True)]) = Ok"
    by (simp add: run_defs step_defs stmt_defs example_defs)
  have performed: "and_then check_mandatory
       (and_then (remove_rigs example_collaborators)
          (perform example_collaborators example_verified ''in'' ''out'' ''colmap'' True
             [''delete_existing'', ''matches_importer'', ''delete_db'']))
       (entry example_unverified [''out/colmap.db'' \<mapsto> ({}, True)])
     = (Ok,
        \<lparr>loaded = example_unverified\<lparr>trajectories := Some [(0, ''cam0'', 11), (0, ''cam1'', 12), (1, ''cam0'', 20)]\<rparr>,
         files = [''out/colmap.db'' \<mapsto> ({}, True)](''out/colmap.db'' := None),
         db_handles = 0,
         trace = [Step ''delete_existing'', Remove ''out/colmap.db'',
            Step ''matches_importer'', Connect ''out/colmap.db'',
            KaptureToColmap
              (kapture_data_to_export
                 (example_unverified\<lparr>trajectories := Some [(0, ''cam0'', 11), (0, ''cam1'', 12), (1, ''cam0'', 20)]\<rparr>)
                 {(''a.jpg'', ''c.jpg''), (''b.jpg'', ''c.jpg'')})
              ''in'' False,
            Close ''out/colmap.db'', Launch ''colmap'' ''out/colmap.db'' True, Exit 0,
            Step ''delete_db'', Remove ''out/colmap.db'']\<rparr>)"
    by (simp add: check_mandatory_def remove_rigs_def entry_def step_body_def step_defs stmt_defs
          example_defs fun_upd_twist)
  from run_performs_non_skipped_steps_in_order
    [of example_collaborators example_unverified example_verified
        "''in''" "''out''" "''colmap''" "[''import'']" True "[''out/colmap.db'' \<mapsto> ({}, True)]"]
    ok performed
  show ?thesis by (simp add: step_names_def)
qed

subsection \<open>The database connection and the external binary\<close>

lemma lifetime_append:
  "lifetime st (es @ es') = (case lifetime st es of None \<Rightarrow> None | Some st' \<Rightarrow> lifetime st' es')"
  by (induction st es rule: lifetime.induct) auto

lemma check_mandatory_lifetime:
  "triple (\<lambda>s. db_handles s = 0 \<and> lifetime (0, False) (trace s) = Some (0, False))
     check_mandatory
     (\<lambda>s. db_handles s = 0 \<and> lifetime (0, False) (trace s) = Some (0, False))
     (\<lambda>e s. closed_while_binary_runs (trace s))"
  by (rule tripleI) (auto simp: check_mandatory_def closed_while_binary_runs_def split: if_splits)

lemma remove_rigs_lifetime:
  "triple (\<lambda>s. db_handles s = 0 \<and> lifetime (0, False) (trace s) = Some (0, False))
     (remove_rigs env)
     (\<lambda>s. db_handles s = 0 \<and> lifetime (0, False) (trace s) = Some (0, False))
     (\<lambda>e s. closed_while_binary_runs (trace s))"
  by (rule tripleI) (auto simp: remove_rigs_def closed_while_binary_runs_def split: option.splits)

lemma delete_existing_lifetime:
  "triple (\<lambda>s. db_handles s = 0 \<and> lifetime (0, False) (trace s) = Some (0, False))
     (delete_existing env cd skip_list force)
     (\<lambda>s. db_handles s = 0 \<and> lifetime (0, False) (trace s) = Some (0, False))
     (\<lambda>e s. closed_while_binary_runs (trace s))"
  by (rule tripleI)
     (auto simp: step_defs stmt_defs lifetime_append closed_while_binary_runs_def
           split: option.splits prod.splits outcome.splits if_splits)

lemma matches_importer_lifetime:
  "triple (\<lambda>s. db_handles s = 0 \<and> lifetime (0, False) (trace s) = Some (0, False))
     (matches_importer env colmap nd cd bin skip_list force)
     (\<lambda>s. db_handles s = 0 \<and> lifetime (0, False) (trace s) = Some (0, False))
     (\<lambda>e s. closed_while_binary_runs (trace s))"
  by (rule tripleI)
     (auto simp: step_defs stmt_defs lifetime_append closed_while_binary_runs_def
           split: option.splits prod.splits outcome.splits if_splits)

lemma import_verified_lifetime:
  "triple (\<lambda>s. db_handles s = 0 \<and> lifetime (0, False) (trace s) = Some (0, False))
     (import_verified env cd skip_list)
     (\<lambda>s. db_handles s = 0 \<and> lifetime (0, False) (trace s) = Some (0, False))
     (\<lambda>e s. closed_while_binary_runs (trace s))"
  by (rule tripleI)
     (auto simp: step_defs stmt_defs lifetime_append closed_while_binary_runs_def
           split: option.splits prod.splits outcome.splits if_splits)

lemma delete_db_lifetime:
  "triple (\<lambda>s. db_handles s = 0 \<and> lifetime (0, False) (trace s) = Some (0, False))
     (delete_db cd skip_list)
     (\<lambda>s. closed_while_binary_runs (trace s))
     (\<lambda>e s. closed_while_binary_runs (trace s))"
  by (rule tripleI)
     (auto simp: step_defs stmt_defs lifetime_append closed_while_binary_runs_def
           split: option.splits prod.splits outcome.splits if_splits)

text \<open>
  The rules do reject a launch under an open connection, and a connection opened before
  the exit.
\<close>

lemma open_connection_at_launch_rejected:
  "\<not> closed_while_binary_runs [Connect f, Launch b f True, Exit 0, Close f]"
  by (simp add: closed_while_binary_runs_def)

lemma reopening_before_exit_rejected:
  "\<not> closed_while_binary_runs [Connect f, Close f, Launch b f True, Connect f, Exit 0, Close f]"
  by (simp add: closed_while_binary_runs_def)

text \<open>
  C6. In every run, whatever its inputs and however it ends, the calls respect the
  lifetime rules: when the external binary is launched every connection opened before has
  been closed, the next event after the launch is the exit of the binary, and a connection
  is opened again only after that exit.
\<close>

theorem connection_closed_while_binary_runs:
  "closed_while_binary_runs
     (trace (snd (run_colmap_gv_from_loaded_data env none colmap nd cd bin skip_list force fs)))"
  unfolding run_unfold
  by (rule triple_always [OF triple_and_then [OF check_mandatory_lifetime
        triple_and_then [OF remove_rigs_lifetime triple_and_then [OF delete_existing_lifetime
        triple_and_then [OF matches_importer_lifetime
        triple_and_then [OF import_verified_lifetime delete_db_lifetime]]]]]])
     (simp add: entry_def)

theorem connection_closed_while_binary_runs_witness:
  "closed_while_binary_runs
     [Step ''matches_importer'', Connect ''out/colmap.db'',
      KaptureToColmap
        (kapture_data_to_export (example_unverified\<lparr>rigs := None\<rparr>)
           {(''a.jpg'', ''c.jpg''), (''b.jpg'', ''c.jpg'')})
        ''in'' False,
      Close ''out/colmap.db'', Launch ''colmap'' ''out/colmap.db'' True, Exit 0,
      Step ''import'', Umask 2, Connect ''out/colmap.db'', GetImagesAndTrajectories ''out/colmap.db'',
      GetMatches ''out/colmap.db'' ''out'' False, Close ''out/colmap.db'']"
  using connection_closed_while_binary_runs
    [of example_collaborators "example_unverified\<lparr>rigs := None\<rparr>" example_verified
        "''in''" "''out''" "''colmap''" "[''delete_existing'', ''delete_db'']" False Map.empty]
  by (simp add: run_defs step_defs stmt_defs example_defs)

subsection \<open>What is exported\<close>

lemma exported_packages_append:
  "exported_packages (es @ es') = exported_packages es @ exported_packages es'"
  by (induction es rule: exported_packages.induct) simp_all

lemma delete_existing_keeps_export:
  "triple (\<lambda>s. P (loaded s) (exported_packages (trace s)) (Step ''matches_importer'' \<in> set (trace s)))
     (delete_existing env cd skip_list force)
     (\<lambda>s. P (loaded s) (exported_packages (trace s)) (Step ''matches_importer'' \<in> set (trace s)))
     (\<lambda>e s. e \<noteq> AttributeError \<and> P (loaded s) (exported_packages (trace s)) (Step ''matches_importer'' \<in> set (trace s)))"
  by (rule tripleI)
     (auto simp: step_defs stmt_defs exported_packages_append
           split: option.splits prod.splits outcome.splits if_splits)

lemma import_verified_keeps_export:
  "triple (\<lambda>s. P (loaded s) (exported_packages (trace s)) (Step ''matches_importer'' \<in> set (trace s)))
     (import_verified env cd skip_list)
     (\<lambda>s. P (loaded s) (exported_packages (trace s)) (Step ''matches_importer'' \<in> set (trace s)))
     (\<lambda>e s. e \<noteq> AttributeError \<and> P (loaded s) (exported_packages (trace s)) (Step ''matches_importer'' \<in> set (trace s)))"
  by (rule tripleI)
     (auto simp: step_defs stmt_defs exported_packages_append
           split: option.splits prod.splits outcome.splits if_splits)

lemma delete_db_keeps_export:
  "triple (\<lambda>s. P (loaded s) (exported_packages (trace s)) (Step ''matches_importer'' \<in> set (trace s)))
     (delete_db cd skip_list)
     (\<lambda>s. P (loaded s) (exported_packages (trace s)) (Step ''matches_importer'' \<in> set (trace s)))
     (\<lambda>e s. e \<noteq> AttributeError \<and> P (loaded s) (exported_packages (trace s)) (Step ''matches_importer'' \<in> set (trace s)))"
  by (rule tripleI)
     (auto simp: step_defs stmt_defs exported_packages_append
           split: option.splits prod.splits outcome.splits if_splits)

lemma matches_importer_export:
  assumes "matches L = Some M"
  shows "triple (\<lambda>s. loaded s = L \<and> exported_packages (trace s) = [] \<and> Step ''matches_importer'' \<notin> set (trace s))
     (matches_importer env colmap nd cd bin skip_list force)
     (\<lambda>s. loaded s = L \<and> exported_packages (trace s) =
            (if Step ''matches_importer'' \<in> set (trace s) \<and> database_opens env (colmap_db_path cd)
             then [kapture_data_to_export L (M - colmap_matches colmap)] else []))
     (\<lambda>e s. e \<noteq> AttributeError \<and> loaded s = L \<and> exported_packages (trace s) =
            (if Step ''matches_importer'' \<in> set (trace s) \<and> database_opens env (colmap_db_path cd)
             then [kapture_data_to_export L (M - colmap_matches colmap)] else []))"
  using assms
  by (intro tripleI)
     (auto simp: step_defs stmt_defs exported_packages_append matches_to_verify_def
           split: option.splits prod.splits outcome.splits if_splits)

lemma remove_rigs_loaded:
  "snd (remove_rigs env s) = s\<lparr>loaded := loaded (snd (remove_rigs env s))\<rparr>"
  by (simp add: remove_rigs_def split: option.splits)

lemma remove_rigs_fields:
  "sensors (loaded (snd (remove_rigs env s))) = sensors (loaded s)"
  "rigs (loaded (snd (remove_rigs env s))) = rigs (loaded s)"
  "records_camera (loaded (snd (remove_rigs env s))) = records_camera (loaded s)"
  "keypoints (loaded (snd (remove_rigs env s))) = keypoints (loaded s)"
  "matches (loaded (snd (remove_rigs env s))) = matches (loaded s)"
  "files (snd (remove_rigs env s)) = files s"
  "trace (snd (remove_rigs env s)) = trace s"
  "db_handles (snd (remove_rigs env s)) = db_handles s"
  by (simp_all add: remove_rigs_def split: option.splits)

lemma remove_rigs_trajectories:
  "trajectories (loaded (snd (remove_rigs env s))) =
     (case rigs (loaded s) of
        None \<Rightarrow> trajectories (loaded s)
      | Some rs \<Rightarrow> map_option (\<lambda>t. rigs_remove_inplace (pose_compose env) t rs) (trajectories (loaded s)))"
  by (simp add: remove_rigs_def split: option.splits)

lemma run_export:
  fixes env :: "('db, 'p) collaborators" and fs :: "string \<rightharpoonup> 'db" and none colmap :: "'p kapture"
    and nd cd bin :: string and skip_list :: "string list" and force :: bool
  assumes valid: "mandatory_present none" and M: "matches none = Some M"
  defines "L \<equiv> loaded (snd (remove_rigs env (entry none fs)))"
  defines "R \<equiv> run_colmap_gv_from_loaded_data env none colmap nd cd bin skip_list force fs"
  shows "fst R \<noteq> Raised AttributeError"
    and "loaded (snd R) = L"
    and "exported_packages (trace (snd R)) =
           (if Step ''matches_importer'' \<in> set (trace (snd R)) \<and> database_opens env (colmap_db_path cd)
            then [kapture_data_to_export L (M - colmap_matches colmap)] else [])"
proof -
  let ?s1 = "snd (remove_rigs env (entry none fs))"
  let ?J = "\<lambda>s::('db, 'p) state. loaded s = L \<and> exported_packages (trace s) =
            (if Step ''matches_importer'' \<in> set (trace s) \<and> database_opens env (colmap_db_path cd)
             then [kapture_data_to_export L (M - colmap_matches colmap)] else [])"
  let ?I = "\<lambda>s::('db, 'p) state. loaded s = L \<and> exported_packages (trace s) = [] \<and> Step ''matches_importer'' \<notin> set (trace s)"
  let ?E = "\<lambda>e s. e \<noteq> AttributeError \<and> ?J s"
  have L_matches: "matches L = Some M" using M by (simp add: L_def remove_rigs_fields entry_def)
  have t1: "triple ?I (delete_existing env cd skip_list force) ?I ?E"
    by (rule triple_weaken [OF delete_existing_keeps_export
          [of "\<lambda>l x b. l = L \<and> x = [] \<and> \<not> b"]]) auto
  have t2: "triple ?I (matches_importer env colmap nd cd bin skip_list force) ?J ?E"
    by (rule matches_importer_export [OF L_matches])
  have t3: "triple ?J (import_verified env cd skip_list) ?J ?E"
    by (rule triple_weaken [OF import_verified_keeps_export
          [of "\<lambda>l x b. l = L \<and> x = (if b \<and> database_opens env (colmap_db_path cd)
                then [kapture_data_to_export L (M - colmap_matches colmap)] else [])"]]) auto
  have t4: "triple ?J (delete_db cd skip_list) ?J ?E"
    by (rule triple_weaken [OF delete_db_keeps_export
          [of "\<lambda>l x b. l = L \<and> x = (if b \<and> database_opens env (colmap_db_path cd)
                then [kapture_data_to_export L (M - colmap_matches colmap)] else [])"]]) auto
  have t: "triple ?I (and_then (delete_existing env cd skip_list force)
               (run_after_delete_existing env colmap nd cd bin skip_list force)) ?J ?E"
    unfolding run_after_delete_existing_def
    by (rule triple_and_then [OF t1 triple_and_then [OF t2 triple_and_then [OF t3 t4]]])
  have I: "?I ?s1" by (simp add: L_def remove_rigs_fields entry_def)
  have R: "R = and_then (delete_existing env cd skip_list force)
               (run_after_delete_existing env colmap nd cd bin skip_list force) ?s1"
    unfolding R_def by (rule run_valid [OF valid])
  from triple_result [OF t I]
  have res: "(fst R = Ok \<longrightarrow> ?J (snd R)) \<and> (\<forall>e. fst R = Raised e \<longrightarrow> ?E e (snd R))"
    unfolding R by simp
  show "fst R \<noteq> Raised AttributeError" using res by (cases "fst R") auto
  show "loaded (snd R) = L" using res by (cases "fst R") auto
  show "exported_packages (trace (snd R)) =
           (if Step ''matches_importer'' \<in> set (trace (snd R)) \<and> database_opens env (colmap_db_path cd)
            then [kapture_data_to_export L (M - colmap_matches colmap)] else [])"
    using res by (cases "fst R") auto
qed

lemma mandatory_matches:
  assumes "mandatory_present none"
  obtains M where "matches none = Some M" and "M \<noteq> {}"
  using assms by (auto simp: mandatory_present_def truthy_set_def split: option.splits)

lemma marker_needs_valid:
  assumes "Step n \<in> set (trace (snd (run_colmap_gv_from_loaded_data env none colmap nd cd bin skip_list force fs)))"
  shows "mandatory_present none"
proof (rule ccontr)
  assume "\<not> mandatory_present none"
  from run_invalid [OF this, of env colmap nd cd bin skip_list force fs] assms
  show False by (simp add: entry_def)
qed

text \<open>
  C1. For a dataset that passes the check of the mandatory collections, the matches
  selected for verification (line 73) are exactly the pairs of the unverified matches
  that are not in the matches of the verified dataset, when it has matches; and when the
  \<^verbatim>\<open>matches_importer\<close> step runs and the database opens, this set is the set of matches
  of the one package that is exported (nothing is exported otherwise).
\<close>

theorem matches_to_verify_is_difference:
  fixes env :: "('db, 'p) collaborators"
  assumes "mandatory_present none"
  shows "\<exists>U. matches none = Some U
     \<and> matches_to_verify none colmap = Some {p \<in> U. \<forall>V. matches colmap = Some V \<longrightarrow> p \<notin> V}
     \<and> map matches (exported_packages
              (trace (snd (run_colmap_gv_from_loaded_data env none colmap nd cd bin skip_list force fs))))
         = (if Step ''matches_importer''
                 \<in> set (trace (snd (run_colmap_gv_from_loaded_data env none colmap nd cd bin skip_list
                                force fs)))
               \<and> database_opens env (colmap_db_path cd)
            then [Some {p \<in> U. \<forall>V. matches colmap = Some V \<longrightarrow> p \<notin> V}] else [])"
proof -
  from assms obtain U where U: "matches none = Some U" by (rule mandatory_matches)
  have diff: "U - colmap_matches colmap = {p \<in> U. \<forall>V. matches colmap = Some V \<longrightarrow> p \<notin> V}"
    by (auto simp: colmap_matches_def split: option.splits)
  have "matches_to_verify none colmap = Some {p \<in> U. \<forall>V. matches colmap = Some V \<longrightarrow> p \<notin> V}"
    using U diff by (simp add: matches_to_verify_def)
  moreover have "map matches (exported_packages
              (trace (snd (run_colmap_gv_from_loaded_data env none colmap nd cd bin skip_list force fs))))
         = (if Step ''matches_importer''
                 \<in> set (trace (snd (run_colmap_gv_from_loaded_data env none colmap nd cd bin skip_list
                                force fs)))
               \<and> database_opens env (colmap_db_path cd)
            then [Some {p \<in> U. \<forall>V. matches colmap = Some V \<longrightarrow> p \<notin> V}] else [])"
    using run_export(3) [OF assms U, where env = env and fs = fs and colmap = colmap and nd = nd
        and cd = cd and bin = bin and skip_list = skip_list and force = force] diff
    by (simp add: kapture_data_to_export_def)
  ultimately show ?thesis using U by (intro exI [of _ U]) simp
qed

theorem matches_to_verify_is_difference_witness:
  "matches_to_verify example_unverified example_verified
     = Some {(''a.jpg'', ''c.jpg''), (''b.jpg'', ''c.jpg'')}
   \<and> map matches (exported_packages (trace (snd (run_colmap_gv_from_loaded_data example_collaborators
          example_unverified example_verified ''in'' ''out'' ''colmap'' [] True Map.empty))))
     = [Some {(''a.jpg'', ''c.jpg''), (''b.jpg'', ''c.jpg'')}]"
proof -
  have valid: "mandatory_present example_unverified"
    by (simp add: example_defs)
  have ran: "Step ''matches_importer'' \<in> set (trace (snd (run_colmap_gv_from_loaded_data
          example_collaborators example_unverified example_verified ''in'' ''out'' ''colmap'' [] True
          Map.empty)))"
    by (simp add: run_defs step_defs stmt_defs example_defs)
  have U: "matches example_unverified
      = Some {(''a.jpg'', ''b.jpg''), (''a.jpg'', ''c.jpg''), (''b.jpg'', ''c.jpg'')}"
    by (simp add: example_defs)
  have V: "{p \<in> {(''a.jpg'', ''b.jpg''), (''a.jpg'', ''c.jpg''), (''b.jpg'', ''c.jpg'')}.
             \<forall>V. matches example_verified = Some V \<longrightarrow> p \<notin> V}
      = {(''a.jpg'', ''c.jpg''), (''b.jpg'', ''c.jpg'')}"
    by (auto simp: example_defs)
  have opens: "database_opens example_collaborators (colmap_db_path ''out'')"
    by (simp add: example_collaborators_def)
  from matches_to_verify_is_difference [OF valid, of example_verified example_collaborators
      "''in''" "''out''" "''colmap''" "[]" True Map.empty] ran opens U V
  show ?thesis by auto
qed

text \<open>
  C3. When the \<^verbatim>\<open>matches_importer\<close> step runs and the database opens, exactly one
  package is handed to \<^verbatim>\<open>kapture_to_colmap\<close>: the sensors, the image records and the
  keypoints of the unverified dataset, its trajectories as the loaded dataset holds them
  (flattened when it has rigs), no rigs, and as matches the difference computed at line
  73, nothing else. In every other run nothing is exported.
\<close>

theorem exported_package_exact:
  fixes env :: "('db, 'p) collaborators"
  shows "exported_packages
           (trace (snd (run_colmap_gv_from_loaded_data env none colmap nd cd bin skip_list force fs)))
         = (if Step ''matches_importer''
                 \<in> set (trace (snd (run_colmap_gv_from_loaded_data env none colmap nd cd bin skip_list
                                force fs)))
               \<and> database_opens env (colmap_db_path cd)
            then [\<lparr>sensors = sensors none,
                   rigs = None,
                   trajectories =
                     (case rigs none of
                        None \<Rightarrow> trajectories none
                      | Some rs \<Rightarrow> map_option (\<lambda>traj. rigs_remove_inplace (pose_compose env) traj rs)
                                    (trajectories none)),
                   records_camera = records_camera none,
                   keypoints = keypoints none,
                   matches = matches_to_verify none colmap\<rparr>]
            else [])"
proof (cases "mandatory_present none")
  case True
  then obtain M where M: "matches none = Some M" by (rule mandatory_matches)
  from run_export(3) [OF True M, where env = env and fs = fs and colmap = colmap and nd = nd
      and cd = cd and bin = bin and skip_list = skip_list and force = force] M
  show ?thesis
    by (simp add: kapture_data_to_export_def matches_to_verify_def remove_rigs_fields
          remove_rigs_trajectories entry_def split: option.splits)
next
  case False
  from run_invalid [OF False, of env colmap nd cd bin skip_list force fs]
  show ?thesis by (simp add: entry_def)
qed

theorem exported_package_exact_witness:
  "exported_packages (trace (snd (run_colmap_gv_from_loaded_data example_collaborators
      example_unverified example_verified ''in'' ''out'' ''colmap'' [''import''] False Map.empty)))
     = [\<lparr>sensors = Some [(''cam0'', [''camera'', ''SIMPLE_PINHOLE'']), (''cam1'', [''camera'', ''SIMPLE_PINHOLE''])],
         rigs = None,
         trajectories = Some [(0, ''cam0'', 11), (0, ''cam1'', 12), (1, ''cam0'', 20)],
         records_camera = Some [(0, ''cam0'', ''a.jpg''), (0, ''cam1'', ''b.jpg''), (1, ''cam0'', ''c.jpg'')],
         keypoints = Some {''a.jpg'', ''b.jpg'', ''c.jpg''},
         matches = Some {(''a.jpg'', ''c.jpg''), (''b.jpg'', ''c.jpg'')}\<rparr>]"
proof -
  have ran: "Step ''matches_importer'' \<in> set (trace (snd (run_colmap_gv_from_loaded_data
          example_collaborators example_unverified example_verified ''in'' ''out'' ''colmap''
          [''import''] False Map.empty)))"
    by (simp add: run_defs step_defs stmt_defs example_defs)
  have opens: "database_opens example_collaborators (colmap_db_path ''out'')"
    by (simp add: example_collaborators_def)
  have d: "matches_to_verify example_unverified example_verified
     = Some {(''a.jpg'', ''c.jpg''), (''b.jpg'', ''c.jpg'')}"
    by (simp add: example_defs)
  from exported_package_exact [of example_collaborators example_unverified example_verified
      "''in''" "''out''" "''colmap''" "[''import'']" False Map.empty] ran opens d
  show ?thesis
    by (simp add: example_unverified_def example_collaborators_def rigs_remove_inplace_def)
qed

subsection \<open>The rigs\<close>

lemma flatten_pose_rig_free:
  "(t, d, p) \<in> set (flatten_pose compose rs depth e) \<Longrightarrow> map_of rs d = None"
proof (induction depth arbitrary: e)
  case 0
  then show ?case by (cases e) (auto split: if_splits)
next
  case (Suc depth)
  obtain t0 d0 p0 where e: "e = (t0, d0, p0)" by (cases e)
  show ?case
  proof (cases "map_of rs d0")
    case None
    with Suc.prems e show ?thesis by simp
  next
    case (Some members)
    with Suc.prems e obtain m q where "(m, q) \<in> set members"
      and "(t, d, p) \<in> set (flatten_pose compose rs depth (t0, m, compose q p0))"
      by auto
    then show ?thesis using Suc.IH by blast
  qed
qed

lemma flatten_pose_of_camera:
  "map_of rs d = None \<Longrightarrow> flatten_pose compose rs depth (t, d, p) = [(t, d, p)]"
  by (cases depth) simp_all

lemma rigs_remove_inplace_rig_free: "rig_free rs (rigs_remove_inplace compose traj rs)"
  by (auto simp: rig_free_def rigs_remove_inplace_def list_all_iff dest: flatten_pose_rig_free)

text \<open>
  C5. When the unverified dataset passes the check and has rigs, the loaded dataset at the
  end of the run is the one given with its trajectories flattened, and nothing else in it
  is changed; no pose of the flattened trajectories is recorded for the name of a rig;
  every package exported carries the flattened trajectories and no rigs, so the flattening
  comes before any export; and the statement that flattens changes no file and makes no
  call: it changes the dataset in memory only.
\<close>

theorem rigs_flattened_in_memory_before_export:
  fixes env :: "('db, 'p) collaborators" and s :: "('db, 'p) state"
  assumes "mandatory_present none" and "rigs none = Some rs"
  shows "loaded (snd (run_colmap_gv_from_loaded_data env none colmap nd cd bin skip_list force fs))
           = none\<lparr>trajectories :=
                    map_option (\<lambda>traj. rigs_remove_inplace (pose_compose env) traj rs) (trajectories none)\<rparr>
     \<and> (\<forall>traj. trajectories (loaded (snd (run_colmap_gv_from_loaded_data env none colmap nd cd bin
                       skip_list force fs))) = Some traj \<longrightarrow> rig_free rs traj)
     \<and> (\<forall>k \<in> set (exported_packages
                      (trace (snd (run_colmap_gv_from_loaded_data env none colmap nd cd bin skip_list
                         force fs)))).
           rigs k = None \<and>
           trajectories k = map_option (\<lambda>traj. rigs_remove_inplace (pose_compose env) traj rs)
                              (trajectories none) \<and>
           (\<forall>traj. trajectories k = Some traj \<longrightarrow> rig_free rs traj))
     \<and> files (snd (remove_rigs env s)) = files s
     \<and> trace (snd (remove_rigs env s)) = trace s"
proof -
  let ?R = "run_colmap_gv_from_loaded_data env none colmap nd cd bin skip_list force fs"
  let ?flat = "map_option (\<lambda>traj. rigs_remove_inplace (pose_compose env) traj rs) (trajectories none)"
  from assms(1) obtain M where M: "matches none = Some M" by (rule mandatory_matches)
  have L: "loaded (snd (remove_rigs env (entry none fs))) = none\<lparr>trajectories := ?flat\<rparr>"
    using assms(2) by (simp add: remove_rigs_def entry_def split: option.splits)
  have l: "loaded (snd ?R) = none\<lparr>trajectories := ?flat\<rparr>"
    using run_export(2) [OF assms(1) M, where env = env and fs = fs and colmap = colmap and nd = nd
        and cd = cd and bin = bin and skip_list = skip_list and force = force] L
    by simp
  have x: "exported_packages (trace (snd ?R)) =
           (if Step ''matches_importer'' \<in> set (trace (snd ?R)) \<and> database_opens env (colmap_db_path cd)
            then [kapture_data_to_export (none\<lparr>trajectories := ?flat\<rparr>) (M - colmap_matches colmap)] else [])"
    using run_export(3) [OF assms(1) M, where env = env and fs = fs and colmap = colmap and nd = nd
        and cd = cd and bin = bin and skip_list = skip_list and force = force] L
    by simp
  have free: "rig_free rs traj" if "?flat = Some traj" for traj
    using that rigs_remove_inplace_rig_free [of rs "pose_compose env"]
    by (auto simp: map_option_case split: option.splits)
  show ?thesis
    using l x free by (auto simp: kapture_data_to_export_def remove_rigs_fields split: if_splits)
qed

theorem rigs_flattened_in_memory_before_export_witness:
  "trajectories (loaded (snd (run_colmap_gv_from_loaded_data example_collaborators example_nested
      example_verified ''in'' ''out'' ''colmap'' [] True Map.empty)))
     = Some [(0, ''cam0'', 11), (0, ''cam1'', 15), (1, ''cam0'', 20)]
   \<and> rig_free [(''rig'', [(''cam0'', 1::int), (''arm'', 2)]), (''arm'', [(''cam1'', 3)])]
       [(0, ''cam0'', 11), (0, ''cam1'', 15), (1, ''cam0'', 20)]
   \<and> map trajectories (exported_packages (trace (snd (run_colmap_gv_from_loaded_data
        example_collaborators example_nested example_verified ''in'' ''out'' ''colmap'' [] True
        Map.empty))))
     = [Some [(0, ''cam0'', 11), (0, ''cam1'', 15), (1, ''cam0'', 20)]]"
proof -
  have valid: "mandatory_present example_nested"
    by (simp add: example_defs)
  have r: "rigs example_nested
      = Some [(''rig'', [(''cam0'', 1), (''arm'', 2)]), (''arm'', [(''cam1'', 3)])]"
    by (simp add: example_defs)
  have f: "map_option (\<lambda>traj. rigs_remove_inplace (pose_compose example_collaborators) traj
                [(''rig'', [(''cam0'', 1), (''arm'', 2)]), (''arm'', [(''cam1'', 3)])])
              (trajectories example_nested)
           = Some [(0, ''cam0'', 11), (0, ''cam1'', 15), (1, ''cam0'', 20)]"
    by (simp add: example_defs)
  have x: "length (exported_packages (trace (snd (run_colmap_gv_from_loaded_data
        example_collaborators example_nested example_verified ''in'' ''out'' ''colmap'' [] True
        Map.empty)))) = 1"
    by (simp add: run_defs step_defs stmt_defs example_defs)
  from rigs_flattened_in_memory_before_export [OF valid r, where env = example_collaborators
      and colmap = example_verified and nd = "''in''" and cd = "''out''" and bin = "''colmap''"
      and skip_list = "[]" and force = True and fs = Map.empty] f x
  show ?thesis
    by (auto simp: length_Suc_conv)
qed

subsection \<open>A verified dataset without matches\<close>

lemma matches_importer_colmap_matches:
  assumes "colmap_matches colmap = colmap_matches colmap'"
  shows "matches_importer env colmap nd cd bin skip_list force
           = matches_importer env colmap' nd cd bin skip_list force"
proof -
  have "matches_importer_body env colmap nd cd bin force
          = matches_importer_body env colmap' nd cd bin force"
    by (rule ext) (simp only: matches_importer_body_def matches_to_verify_def assms)
  then show ?thesis by (simp only: matches_importer_def)
qed

text \<open>
  C9. When the verified dataset has no matches at all, the run is the run on the same
  dataset with an empty set of matches: the difference computed is the whole set of
  unverified matches, no \<^verbatim>\<open>AttributeError\<close> is raised for the missing collection, and
  the package exported, when the step runs and the database opens, carries all the
  unverified matches.
\<close>

theorem missing_verified_matches_as_empty:
  fixes env :: "('db, 'p) collaborators"
  assumes "matches colmap = None"
  shows "run_colmap_gv_from_loaded_data env none colmap nd cd bin skip_list force fs
           = run_colmap_gv_from_loaded_data env none (colmap\<lparr>matches := Some {}\<rparr>) nd cd bin
               skip_list force fs
     \<and> matches_to_verify none colmap = matches none
     \<and> fst (run_colmap_gv_from_loaded_data env none colmap nd cd bin skip_list force fs)
         \<noteq> Raised AttributeError
     \<and> map matches (exported_packages
               (trace (snd (run_colmap_gv_from_loaded_data env none colmap nd cd bin skip_list force fs))))
         = (if Step ''matches_importer''
                 \<in> set (trace (snd (run_colmap_gv_from_loaded_data env none colmap nd cd bin skip_list
                                force fs)))
               \<and> database_opens env (colmap_db_path cd)
            then [matches none] else [])"
proof -
  let ?R = "run_colmap_gv_from_loaded_data env none colmap nd cd bin skip_list force fs"
  have e: "colmap_matches colmap = {}" using assms by (simp add: colmap_matches_def)
  then have "colmap_matches colmap = colmap_matches (colmap\<lparr>matches := Some {}\<rparr>)"
    by (simp add: colmap_matches_def)
  then have same: "?R = run_colmap_gv_from_loaded_data env none (colmap\<lparr>matches := Some {}\<rparr>) nd cd bin
               skip_list force fs"
    unfolding run_unfold by (simp add: matches_importer_colmap_matches [of colmap "colmap\<lparr>matches := Some {}\<rparr>"])
  have whole: "matches_to_verify none colmap = matches none"
    using e by (simp add: matches_to_verify_def split: option.splits)
  have no_error: "fst ?R \<noteq> Raised AttributeError"
  proof (cases "mandatory_present none")
    case True
    then obtain M where M: "matches none = Some M" by (rule mandatory_matches)
    from run_export(1) [OF True M] show ?thesis .
  next
    case False
    from run_invalid [OF False, of env colmap nd cd bin skip_list force fs] show ?thesis by simp
  qed
  have exported: "map matches (exported_packages (trace (snd ?R)))
      = (if Step ''matches_importer'' \<in> set (trace (snd ?R)) \<and> database_opens env (colmap_db_path cd)
         then [matches none] else [])"
  proof (cases "mandatory_present none")
    case True
    then obtain M where M: "matches none = Some M" by (rule mandatory_matches)
    from run_export(3) [OF True M, where env = env and fs = fs and colmap = colmap and nd = nd
        and cd = cd and bin = bin and skip_list = skip_list and force = force] M e
    show ?thesis by (simp add: kapture_data_to_export_def)
  next
    case False
    from run_invalid [OF False, of env colmap nd cd bin skip_list force fs]
    show ?thesis by (simp add: entry_def)
  qed
  from same whole no_error exported show ?thesis by (intro conjI)
qed

theorem missing_verified_matches_as_empty_witness:
  "fst (run_colmap_gv_from_loaded_data example_collaborators example_unverified
          (example_verified\<lparr>matches := None\<rparr>) ''in'' ''out'' ''colmap'' [] True Map.empty) = Ok
   \<and> map matches (exported_packages (trace (snd (run_colmap_gv_from_loaded_data example_collaborators
         example_unverified (example_verified\<lparr>matches := None\<rparr>) ''in'' ''out'' ''colmap'' [] True
         Map.empty))))
     = [Some {(''a.jpg'', ''b.jpg''), (''a.jpg'', ''c.jpg''), (''b.jpg'', ''c.jpg'')}]"
proof -
  have none: "matches (example_verified\<lparr>matches := None\<rparr>) = None" by simp
  have ran: "Step ''matches_importer'' \<in> set (trace (snd (run_colmap_gv_from_loaded_data
          example_collaborators example_unverified (example_verified\<lparr>matches := None\<rparr>) ''in'' ''out''
          ''colmap'' [] True Map.empty)))"
    by (simp add: run_defs step_defs stmt_defs example_defs)
  have ok: "fst (run_colmap_gv_from_loaded_data example_collaborators example_unverified
          (example_verified\<lparr>matches := None\<rparr>) ''in'' ''out'' ''colmap'' [] True Map.empty) = Ok"
    by (simp add: run_defs step_defs stmt_defs example_defs)
  have U: "matches example_unverified
      = Some {(''a.jpg'', ''b.jpg''), (''a.jpg'', ''c.jpg''), (''b.jpg'', ''c.jpg'')}"
    by (simp add: example_defs)
  have opens: "database_opens example_collaborators (colmap_db_path ''out'')"
    by (simp add: example_collaborators_def)
  from missing_verified_matches_as_empty [OF none, where env = example_collaborators
      and none = example_unverified and nd = "''in''" and cd = "''out''" and bin = "''colmap''"
      and skip_list = "[]" and force = True and fs = Map.empty,
      THEN conjunct2, THEN conjunct2, THEN conjunct2] ran opens
  have "map matches (exported_packages (trace (snd (run_colmap_gv_from_loaded_data example_collaborators
         example_unverified (example_verified\<lparr>matches := None\<rparr>) ''in'' ''out'' ''colmap'' [] True
         Map.empty)))) = [matches example_unverified]"
    by simp
  with ok U show ?thesis by simp
qed

subsection \<open>The database file at the end\<close>

text \<open>
  C8. When \<^verbatim>\<open>delete_db\<close> is in the skip list, the run ends as the import step leaves it:
  same outcome, same files (the database file among them, with the content it had at the
  end of the import step), same calls. Nothing after the import step writes or removes
  the database file.
\<close>

theorem database_kept_when_delete_db_skipped:
  assumes "''delete_db'' \<in> set skip_list"
  shows "run_colmap_gv_from_loaded_data env none colmap nd cd bin skip_list force fs
           = run_through_import env colmap nd cd bin skip_list force (entry none fs)"
proof -
  have "delete_db cd skip_list s = (Ok, s)" for s :: "('a, 'b) state"
    using assms by (simp add: delete_db_def unless_skipped_def)
  then show ?thesis
    by (simp add: run_colmap_gv_from_loaded_data_def and_then_def split: prod.splits outcome.splits)
qed

theorem database_kept_when_delete_db_skipped_witness:
  "files (snd (run_colmap_gv_from_loaded_data example_collaborators example_unverified example_verified
      ''in'' ''out'' ''colmap'' [''delete_db''] True Map.empty)) ''out/colmap.db''
     = Some ({(''a.jpg'', ''c.jpg''), (''b.jpg'', ''c.jpg'')}, True)
   \<and> files (snd (run_through_import example_collaborators example_verified
      ''in'' ''out'' ''colmap'' [''delete_db''] True (entry example_unverified Map.empty))) ''out/colmap.db''
     = Some ({(''a.jpg'', ''c.jpg''), (''b.jpg'', ''c.jpg'')}, True)"
proof -
  have skipped: "''delete_db'' \<in> set [''delete_db'']" by simp
  have "files (snd (run_through_import example_collaborators example_verified
      ''in'' ''out'' ''colmap'' [''delete_db''] True (entry example_unverified Map.empty))) ''out/colmap.db''
     = Some ({(''a.jpg'', ''c.jpg''), (''b.jpg'', ''c.jpg'')}, True)"
    by (simp add: run_defs step_defs stmt_defs example_defs)
  with database_kept_when_delete_db_skipped [OF skipped, of example_collaborators example_unverified
      example_verified "''in''" "''out''" "''colmap''" True Map.empty]
  show ?thesis by simp
qed

text \<open>
  C10. When \<^verbatim>\<open>delete_db\<close> is not skipped and the statements before it end, raising
  nothing, in a state with no file at the path of the database, the run ends with
  \<^verbatim>\<open>FileNotFoundError\<close>: the step removes the file without checking that it exists.
\<close>

theorem delete_db_fails_on_missing_file:
  assumes "''delete_db'' \<notin> set skip_list"
    and "run_through_import env colmap nd cd bin skip_list force (entry none fs) = (Ok, s)"
    and "files s (colmap_db_path cd) = None"
  shows "run_colmap_gv_from_loaded_data env none colmap nd cd bin skip_list force fs
           = (Raised FileNotFoundError, emit (Step ''delete_db'') s)"
  using assms
  by (simp add: run_colmap_gv_from_loaded_data_def and_then_def delete_db_def unless_skipped_def
        os_remove_def emit_def)

theorem delete_db_fails_on_missing_file_witness:
  "run_colmap_gv_from_loaded_data example_collaborators example_unverified example_verified
      ''in'' ''out'' ''colmap'' [''matches_importer'', ''import''] False Map.empty
     = (Raised FileNotFoundError,
        \<lparr>loaded = example_unverified\<lparr>trajectories := Some [(0, ''cam0'', 11), (0, ''cam1'', 12), (1, ''cam0'', 20)]\<rparr>,
         files = Map.empty, db_handles = 0,
         trace = [Step ''delete_existing'', Step ''delete_db'']\<rparr>)"
proof -
  have kept: "''delete_db'' \<notin> set [''matches_importer'', ''import'']" by simp
  have before: "run_through_import example_collaborators example_verified ''in'' ''out'' ''colmap''
      [''matches_importer'', ''import''] False (entry example_unverified Map.empty)
     = (Ok, \<lparr>loaded = example_unverified\<lparr>trajectories := Some [(0, ''cam0'', 11), (0, ''cam1'', 12), (1, ''cam0'', 20)]\<rparr>,
         files = Map.empty, db_handles = 0, trace = [Step ''delete_existing'']\<rparr>)"
    by (simp add: run_defs step_defs stmt_defs example_defs)
  have missing: "files \<lparr>loaded = example_unverified\<lparr>trajectories := Some [(0, ''cam0'', 11), (0, ''cam1'', 12), (1, ''cam0'', 20)]\<rparr>,
         files = (Map.empty :: string \<rightharpoonup> image_pair set \<times> bool), db_handles = 0,
         trace = [Step ''delete_existing'']\<rparr> (colmap_db_path ''out'') = None"
    by simp
  from delete_db_fails_on_missing_file [OF kept before missing]
  show ?thesis by (simp add: emit_def)
qed

subsection \<open>A database file that is already there\<close>

lemma prompts_append: "prompts (es @ es') = prompts es @ prompts es'"
  by (induction es rule: prompts.induct) simp_all

lemma matches_importer_prompts:
  "triple (\<lambda>s. prompts (trace s) = A \<and> prefix B (trace s))
     (matches_importer env colmap nd cd bin skip_list force)
     (\<lambda>s. prompts (trace s) = A \<and> prefix B (trace s))
     (\<lambda>e s. prompts (trace s) = A \<and> prefix B (trace s))"
  by (rule tripleI)
     (auto simp: step_defs stmt_defs prompts_append
           split: option.splits prod.splits outcome.splits if_splits)

lemma import_verified_prompts:
  "triple (\<lambda>s. prompts (trace s) = A \<and> prefix B (trace s))
     (import_verified env cd skip_list)
     (\<lambda>s. prompts (trace s) = A \<and> prefix B (trace s))
     (\<lambda>e s. prompts (trace s) = A \<and> prefix B (trace s))"
  by (rule tripleI)
     (auto simp: step_defs stmt_defs prompts_append
           split: option.splits prod.splits outcome.splits if_splits)

lemma delete_db_prompts:
  "triple (\<lambda>s. prompts (trace s) = A \<and> prefix B (trace s))
     (delete_db cd skip_list)
     (\<lambda>s. prompts (trace s) = A \<and> prefix B (trace s))
     (\<lambda>e s. prompts (trace s) = A \<and> prefix B (trace s))"
  by (rule tripleI)
     (auto simp: step_defs stmt_defs prompts_append
           split: option.splits prod.splits outcome.splits if_splits)

lemma run_after_delete_existing_prompts:
  assumes "prompts (trace s) = A" and "prefix B (trace s)"
  shows "prompts (trace (snd (run_after_delete_existing env colmap nd cd bin skip_list force s))) = A
     \<and> prefix B (trace (snd (run_after_delete_existing env colmap nd cd bin skip_list force s)))"
  unfolding run_after_delete_existing_def
  by (rule triple_always [OF triple_and_then [OF matches_importer_prompts
        triple_and_then [OF import_verified_prompts delete_db_prompts]]])
     (simp add: assms)

text \<open>
  C7. The unverified dataset passes the check, \<^verbatim>\<open>delete_existing\<close> is not skipped and
  there is a file at the path of the database. Without \<open>force\<close>, the first thing the run
  does is to ask the user; if the answer is not a yes the run aborts there, the file
  untouched, and if it is a yes the file is removed and the run goes on with the next
  steps. With \<open>force\<close>, the user is never asked, the file is removed and the run goes on
  with the next steps.
\<close>

theorem existing_database_removed_on_force_or_confirmation:
  fixes env :: "('db, 'p) collaborators"
  assumes "mandatory_present none"
    and "''delete_existing'' \<notin> set skip_list"
    and "fs (colmap_db_path cd) = Some c"
  shows "(\<not> force \<longrightarrow>
            prefix [Step ''delete_existing'', Prompt (colmap_db_path cd)]
              (trace (snd (run_colmap_gv_from_loaded_data env none colmap nd cd bin skip_list force fs))))
     \<and> (\<not> force \<and> \<not> user_confirms env \<longrightarrow>
            fst (run_colmap_gv_from_loaded_data env none colmap nd cd bin skip_list force fs)
              = Raised RemovalRefused
          \<and> files (snd (run_colmap_gv_from_loaded_data env none colmap nd cd bin skip_list force fs)) = fs
          \<and> trace (snd (run_colmap_gv_from_loaded_data env none colmap nd cd bin skip_list force fs))
              = [Step ''delete_existing'', Prompt (colmap_db_path cd)])
     \<and> (\<not> force \<and> user_confirms env \<longrightarrow>
            run_colmap_gv_from_loaded_data env none colmap nd cd bin skip_list force fs
              = run_after_delete_existing env colmap nd cd bin skip_list force
                  \<lparr>loaded = loaded (snd (remove_rigs env (entry none fs))),
                   files = fs(colmap_db_path cd := None), db_handles = 0,
                   trace = [Step ''delete_existing'', Prompt (colmap_db_path cd),
                            Remove (colmap_db_path cd)]\<rparr>)
     \<and> (force \<longrightarrow>
            prompts (trace (snd (run_colmap_gv_from_loaded_data env none colmap nd cd bin skip_list
                       force fs))) = []
          \<and> run_colmap_gv_from_loaded_data env none colmap nd cd bin skip_list force fs
              = run_after_delete_existing env colmap nd cd bin skip_list force
                  \<lparr>loaded = loaded (snd (remove_rigs env (entry none fs))),
                   files = fs(colmap_db_path cd := None), db_handles = 0,
                   trace = [Step ''delete_existing'', Remove (colmap_db_path cd)]\<rparr>)"
proof -
  let ?R = "run_colmap_gv_from_loaded_data env none colmap nd cd bin skip_list force fs"
  let ?s1 = "snd (remove_rigs env (entry none fs))"
  let ?p = "colmap_db_path cd"
  let ?after = "run_after_delete_existing env colmap nd cd bin skip_list force"
  have s1: "?s1 = \<lparr>loaded = loaded ?s1, files = fs, db_handles = 0, trace = []\<rparr>"
    by (simp add: remove_rigs_def entry_def split: option.splits)
  have R: "?R = and_then (delete_existing env cd skip_list force) ?after ?s1"
    by (rule run_valid [OF assms(1)])
  have forced: "?R = ?after \<lparr>loaded = loaded ?s1, files = fs(?p := None), db_handles = 0,
                   trace = [Step ''delete_existing'', Remove ?p]\<rparr>" if force
  proof -
    have "delete_existing env cd skip_list force ?s1
        = (Ok, \<lparr>loaded = loaded ?s1, files = fs(?p := None), db_handles = 0,
                   trace = [Step ''delete_existing'', Remove ?p]\<rparr>)"
      using assms(2,3) that by (subst s1) (simp add: delete_existing_def unless_skipped_def stmt_defs)
    then show ?thesis unfolding R by (rule and_then_Ok)
  qed
  have confirmed: "?R = ?after \<lparr>loaded = loaded ?s1, files = fs(?p := None), db_handles = 0,
                   trace = [Step ''delete_existing'', Prompt ?p, Remove ?p]\<rparr>"
    if "\<not> force" and "user_confirms env"
  proof -
    have "delete_existing env cd skip_list force ?s1
        = (Ok, \<lparr>loaded = loaded ?s1, files = fs(?p := None), db_handles = 0,
                   trace = [Step ''delete_existing'', Prompt ?p, Remove ?p]\<rparr>)"
      using assms(2,3) that by (subst s1) (simp add: delete_existing_def unless_skipped_def stmt_defs)
    then show ?thesis unfolding R by (rule and_then_Ok)
  qed
  have refused: "?R = (Raised RemovalRefused, \<lparr>loaded = loaded ?s1, files = fs, db_handles = 0,
                   trace = [Step ''delete_existing'', Prompt ?p]\<rparr>)"
    if "\<not> force" and "\<not> user_confirms env"
  proof -
    have "delete_existing env cd skip_list force ?s1
        = (Raised RemovalRefused, \<lparr>loaded = loaded ?s1, files = fs, db_handles = 0,
                   trace = [Step ''delete_existing'', Prompt ?p]\<rparr>)"
      using assms(2,3) that by (subst s1) (simp add: delete_existing_def unless_skipped_def stmt_defs)
    then show ?thesis unfolding R by (rule and_then_Raised)
  qed
  have asked: "prefix [Step ''delete_existing'', Prompt ?p] (trace (snd ?R))" if "\<not> force"
  proof (cases "user_confirms env")
    case True
    show ?thesis
      unfolding confirmed [OF that True]
      by (rule run_after_delete_existing_prompts [THEN conjunct2]) (simp_all add: prefix_def)
  next
    case False
    show ?thesis unfolding refused [OF that False] by simp
  qed
  have silent: "prompts (trace (snd ?R)) = []" if force
    unfolding forced [OF that]
    by (rule run_after_delete_existing_prompts [where B = "[]", THEN conjunct1]) simp_all
  show ?thesis
    using asked refused confirmed silent forced by simp
qed

theorem existing_database_removed_on_force_or_confirmation_witness:
  "fst (run_colmap_gv_from_loaded_data example_collaborators example_unverified example_verified
          ''in'' ''out'' ''colmap'' [] False [''out/colmap.db'' \<mapsto> ({}, True)])
     = Raised RemovalRefused
   \<and> files (snd (run_colmap_gv_from_loaded_data example_collaborators example_unverified
          example_verified ''in'' ''out'' ''colmap'' [] False [''out/colmap.db'' \<mapsto> ({}, True)]))
     = [''out/colmap.db'' \<mapsto> ({}, True)]
   \<and> trace (snd (run_colmap_gv_from_loaded_data example_collaborators example_unverified
          example_verified ''in'' ''out'' ''colmap'' [] False [''out/colmap.db'' \<mapsto> ({}, True)]))
     = [Step ''delete_existing'', Prompt ''out/colmap.db'']
   \<and> prompts (trace (snd (run_colmap_gv_from_loaded_data example_collaborators example_unverified
          example_verified ''in'' ''out'' ''colmap'' [] True [''out/colmap.db'' \<mapsto> ({}, True)])))
     = []"
proof -
  have valid: "mandatory_present example_unverified"
    by (simp add: example_defs)
  have kept: "''delete_existing'' \<notin> set []" by simp
  have there: "[''out/colmap.db'' \<mapsto> ({} :: image_pair set, True)] (colmap_db_path ''out'') = Some ({}, True)"
    by (simp add: colmap_db_path_def path_join_def)
  have refuses: "\<not> user_confirms example_collaborators"
    by (simp add: example_collaborators_def)
  have p: "colmap_db_path ''out'' = ''out/colmap.db''"
    by (simp add: colmap_db_path_def path_join_def)
  from existing_database_removed_on_force_or_confirmation
     [where env = example_collaborators and none = example_unverified and colmap = example_verified
        and nd = "''in''" and cd = "''out''" and bin = "''colmap''" and skip_list = "[]"
        and force = False and fs = "[''out/colmap.db'' \<mapsto> ({}, True)]" and c = "({}, True)",
      OF valid kept there] refuses p
  have a: "fst (run_colmap_gv_from_loaded_data example_collaborators example_unverified example_verified
          ''in'' ''out'' ''colmap'' [] False [''out/colmap.db'' \<mapsto> ({}, True)])
     = Raised RemovalRefused
   \<and> files (snd (run_colmap_gv_from_loaded_data example_collaborators example_unverified
          example_verified ''in'' ''out'' ''colmap'' [] False [''out/colmap.db'' \<mapsto> ({}, True)]))
     = [''out/colmap.db'' \<mapsto> ({}, True)]
   \<and> trace (snd (run_colmap_gv_from_loaded_data example_collaborators example_unverified
          example_verified ''in'' ''out'' ''colmap'' [] False [''out/colmap.db'' \<mapsto> ({}, True)]))
     = [Step ''delete_existing'', Prompt ''out/colmap.db'']"
    by simp
  from existing_database_removed_on_force_or_confirmation
     [where env = example_collaborators and none = example_unverified and colmap = example_verified
        and nd = "''in''" and cd = "''out''" and bin = "''colmap''" and skip_list = "[]"
        and force = True and fs = "[''out/colmap.db'' \<mapsto> ({}, True)]" and c = "({}, True)",
      OF valid kept there]
  have b: "prompts (trace (snd (run_colmap_gv_from_loaded_data example_collaborators example_unverified
          example_verified ''in'' ''out'' ''colmap'' [] True [''out/colmap.db'' \<mapsto> ({}, True)])))
     = []"
    by blast
  from a b show ?thesis by simp
qed

end
